theory Spec2Isabelle
  imports Complex_Main "HOL-Library.AList" "HOL-Library.Multiset"
begin

section \<open>Strings and JavaScript values\<close>

text \<open>
  Strings are HOL strings. The model of \<^verbatim>\<open>trim\<close> and \<^verbatim>\<open>toUpperCase\<close> covers ASCII:
  the six ASCII white-space characters are trimmed and the letters a..z are raised;
  every other character is left as it is.
\<close>

definition is_space :: "char \<Rightarrow> bool" where
  "is_space c \<longleftrightarrow> of_char c \<in> {9, 10, 11, 12, 13, 32 :: nat}"

definition trim :: "string \<Rightarrow> string" where
  "trim s = rev (dropWhile is_space (rev (dropWhile is_space s)))"

definition upper_char :: "char \<Rightarrow> char" where
  "upper_char c =
     (if 97 \<le> (of_char c :: nat) \<and> (of_char c :: nat) \<le> 122
      then char_of (of_char c - 32 :: nat) else c)"

definition toUpperCase :: "string \<Rightarrow> string" where
  "toUpperCase s = map upper_char s"

text \<open>
  A string-valued field of a request body or of a frame is \<open>None\<close> when it is absent or
  null and \<open>Some s\<close> when it is the JSON string \<open>s\<close>. \<open>truthy\<close> gives the string when the
  field is truthy in JavaScript: present and not empty.
\<close>

definition truthy :: "string option \<Rightarrow> string option" where
  "truthy x = (case x of None \<Rightarrow> None | Some s \<Rightarrow> if s = '''' then None else Some s)"

text \<open>\<^verbatim>\<open>String(x || "")\<close>\<close>

definition or_empty :: "string option \<Rightarrow> string" where
  "or_empty x = (case truthy x of None \<Rightarrow> '''' | Some s \<Rightarrow> s)"

text \<open>\<^verbatim>\<open>normalizeFlatId(x) = String(x || "").trim().toUpperCase()\<close>\<close>

definition normalizeFlatId :: "string option \<Rightarrow> string" where
  "normalizeFlatId x = toUpperCase (trim (or_empty x))"

text \<open>
  The telemetry fields of a \<^verbatim>\<open>broadcast:status\<close> frame are arbitrary JSON scalars.
  A JavaScript number is a real, an infinity or NaN.
\<close>

datatype jsnum = Fin real | PosInf | NegInf | NaN

datatype jsval = JUndefined | JNull | JBool bool | JNum jsnum | JStr string

fun ToBoolean :: "jsval \<Rightarrow> bool" where
  "ToBoolean JUndefined = False"
| "ToBoolean JNull = False"
| "ToBoolean (JBool b) = b"
| "ToBoolean (JNum n) = (n \<noteq> Fin 0 \<and> n \<noteq> NaN)"
| "ToBoolean (JStr s) = (s \<noteq> '''')"

text \<open>
  \<^verbatim>\<open>Number(v)\<close>. The conversion of a string to a number is the language's own
  \<^verbatim>\<open>StringToNumber\<close>; it is a parameter of the model.
\<close>

fun ToNumber :: "(string \<Rightarrow> jsnum) \<Rightarrow> jsval \<Rightarrow> jsnum" where
  "ToNumber StringToNumber JUndefined = NaN"
| "ToNumber StringToNumber JNull = Fin 0"
| "ToNumber StringToNumber (JBool b) = Fin (if b then 1 else 0)"
| "ToNumber StringToNumber (JNum n) = n"
| "ToNumber StringToNumber (JStr s) = StringToNumber s"

text \<open>\<^verbatim>\<open>v || 0\<close>\<close>

definition or_zero :: "jsval \<Rightarrow> jsval" where
  "or_zero v = (if ToBoolean v then v else JNum (Fin 0))"

definition in_unit_interval :: "jsnum \<Rightarrow> bool" where
  "in_unit_interval n = (case n of Fin x \<Rightarrow> 0 \<le> x \<and> x \<le> 1 | _ \<Rightarrow> False)"

section \<open>Sockets and frames sent by the server\<close>

text \<open>
  A WebSocket connection is identified by a number. \<open>readyState\<close> is the socket's state as
  the ws library reports it (1 is OPEN). The handlers return the calls they make on the
  sockets: \<^verbatim>\<open>ws.send\<close> and \<^verbatim>\<open>ws.close\<close>.
\<close>

type_synonym ws = nat

datatype frame =
    Hello string
  | BroadcastDenied string
  | ListenError string
  | ListenOk string
  | ListenerJoin string
  | ListenerLeave string
  | OfferFrom string string
  | AnswerFrom string string
  | IceFromBroadcaster string string
  | IceFromListener string string

datatype ws_call = WsSend ws frame | WsClose ws nat string

definition safeSend :: "(ws \<Rightarrow> nat) \<Rightarrow> ws option \<Rightarrow> frame \<Rightarrow> ws_call list" where
  "safeSend readyState w obj =
     (case w of None \<Rightarrow> []
      | Some sock \<Rightarrow> if readyState sock \<noteq> 1 then [] else [WsSend sock obj])"

section \<open>Presence plane: clients and the station registry\<close>

datatype role = Idle | Broadcaster | Listener

record client =
  flat_id :: "string option"
  ip :: string
  role :: role
  listeningTo :: "string option"
  connectedAt :: int

record audio =
  micOn :: bool
  sysOn :: bool
  ptt :: bool
  speaking :: bool
  micLevel :: jsnum

text \<open>
  \<open>listeners\<close> is a JavaScript \<^verbatim>\<open>Set\<close> of sockets: a list without repetition, in
  insertion order.
\<close>

record station =
  st_ip :: string
  startedAt :: int
  listeners :: "ws list"
  audio :: audio

definition set_add :: "ws \<Rightarrow> ws list \<Rightarrow> ws list" where
  "set_add w xs = (if w \<in> set xs then xs else xs @ [w])"

definition set_delete :: "ws \<Rightarrow> ws list \<Rightarrow> ws list" where
  "set_delete w xs = removeAll w xs"

text \<open>
  \<open>live.clients\<close> is a map from sockets to client objects. \<open>live.stations\<close> is a
  JavaScript \<^verbatim>\<open>Map\<close> that is iterated: an association list in insertion order, read
  with \<open>map_of\<close>, written with \<open>AList.update\<close> (in place, or appended when the key is
  new) and \<open>AList.delete\<close>.
\<close>

record live =
  clients :: "ws \<rightharpoonup> client"
  stations :: "(string \<times> station) list"

definition live_init :: live where
  "live_init = \<lparr>clients = Map.empty, stations = []\<rparr>"

definition default_audio :: audio where
  "default_audio =
     \<lparr>micOn = False, sysOn = False, ptt = False, speaking = False, micLevel = Fin 0\<rparr>"

text \<open>\<^verbatim>\<open>live.stations.get(k)?.listeners.delete(ws)\<close>\<close>

definition listeners_delete :: "string \<Rightarrow> ws \<Rightarrow> (string \<times> station) list \<Rightarrow> (string \<times> station) list" where
  "listeners_delete k w sts =
     (case map_of sts k of None \<Rightarrow> sts
      | Some st \<Rightarrow> AList.update k (st\<lparr>listeners := set_delete w (listeners st)\<rparr>) sts)"

text \<open>
  The loop over a station's listeners of \<^verbatim>\<open>broadcast:stop\<close> and of the close handler:
  every listener that still has a client object goes back to idle.
\<close>

fun reset_listeners :: "ws list \<Rightarrow> (ws \<rightharpoonup> client) \<Rightarrow> (ws \<rightharpoonup> client)" where
  "reset_listeners [] cs = cs"
| "reset_listeners (sock # socks) cs =
     reset_listeners socks
       (case cs sock of None \<Rightarrow> cs
        | Some lc \<Rightarrow> cs(sock \<mapsto> lc\<lparr>role := Idle, listeningTo := None\<rparr>))"

text \<open>\<^verbatim>\<open>if (c.listeningTo) live.stations.get(c.listeningTo)?.listeners.delete(ws)\<close>\<close>

definition leave_current :: "ws \<Rightarrow> client \<Rightarrow> (string \<times> station) list \<Rightarrow> (string \<times> station) list" where
  "leave_current w c sts =
     (case truthy (listeningTo c) of None \<Rightarrow> sts | Some t \<Rightarrow> listeners_delete t w sts)"

subsection \<open>Frames received on the presence channel\<close>

datatype presence_msg =
    Identify "string option"
  | BroadcastStart
  | BroadcastStop
  | BroadcastStatus jsval jsval jsval jsval jsval
  | ListenStart "string option"
  | ListenStop
  | OtherFrame

definition presence_connect :: "ws \<Rightarrow> string \<Rightarrow> int \<Rightarrow> live \<Rightarrow> live" where
  "presence_connect w addr now s =
     s\<lparr>clients := (clients s)(w \<mapsto>
         \<lparr>flat_id = None, ip = addr, role = Idle, listeningTo = None, connectedAt = now\<rparr>)\<rparr>"

definition broadcast_start :: "(ws \<Rightarrow> nat) \<Rightarrow> int \<Rightarrow> ws \<Rightarrow> client \<Rightarrow> live \<Rightarrow> live \<times> ws_call list" where
  "broadcast_start readyState now w c s =
     (case truthy (flat_id c) of None \<Rightarrow> (s, [])
      | Some f \<Rightarrow>
          (case map_of (stations s) f of
             Some existing \<Rightarrow>
               (s, safeSend readyState (Some w) (BroadcastDenied ''ALREADY_BROADCASTING''))
           | None \<Rightarrow>
               let sts1 = leave_current w c (stations s);
                   c1 = (case truthy (listeningTo c) of None \<Rightarrow> c
                         | Some t \<Rightarrow> c\<lparr>listeningTo := None\<rparr>);
                   c2 = c1\<lparr>role := Broadcaster\<rparr>
               in (s\<lparr>clients := (clients s)(w \<mapsto> c2),
                     stations := AList.update f
                       \<lparr>st_ip = ip c2, startedAt = now, listeners = [], audio = default_audio\<rparr>
                       sts1\<rparr>, [])))"

definition broadcast_stop :: "ws \<Rightarrow> client \<Rightarrow> live \<Rightarrow> live" where
  "broadcast_stop w c s =
     (case truthy (flat_id c) of None \<Rightarrow> s
      | Some f \<Rightarrow>
          let cs1 = (case map_of (stations s) f of None \<Rightarrow> clients s
                     | Some st \<Rightarrow> reset_listeners (listeners st) (clients s));
              cs2 = (case cs1 w of None \<Rightarrow> cs1 | Some c1 \<Rightarrow> cs1(w \<mapsto> c1\<lparr>role := Idle\<rparr>))
          in s\<lparr>clients := cs2, stations := AList.delete f (stations s)\<rparr>)"

definition broadcast_status ::
  "(string \<Rightarrow> jsnum) \<Rightarrow> client \<Rightarrow> jsval \<Rightarrow> jsval \<Rightarrow> jsval \<Rightarrow> jsval \<Rightarrow> jsval \<Rightarrow> live \<Rightarrow> live" where
  "broadcast_status StringToNumber c m_micOn m_sysOn m_ptt m_speaking m_micLevel s =
     (case truthy (flat_id c) of None \<Rightarrow> s
      | Some f \<Rightarrow>
          (case map_of (stations s) f of None \<Rightarrow> s
           | Some st \<Rightarrow>
               s\<lparr>stations := AList.update f
                    (st\<lparr>audio := \<lparr>micOn = ToBoolean m_micOn, sysOn = ToBoolean m_sysOn,
                                  ptt = ToBoolean m_ptt, speaking = ToBoolean m_speaking,
                                  micLevel = ToNumber StringToNumber (or_zero m_micLevel)\<rparr>\<rparr>)
                    (stations s)\<rparr>))"

definition listen_start :: "ws \<Rightarrow> client \<Rightarrow> string option \<Rightarrow> live \<Rightarrow> live" where
  "listen_start w c targetFlat s =
     (let target = normalizeFlatId targetFlat in
      case map_of (stations s) target of None \<Rightarrow> s
      | Some st \<Rightarrow>
          if role c = Broadcaster then s
          else
            let sts1 = (case truthy (listeningTo c) of None \<Rightarrow> stations s
                        | Some old \<Rightarrow> if old \<noteq> target
                                       then listeners_delete old w (stations s)
                                       else stations s)
            in s\<lparr>clients := (clients s)(w \<mapsto> c\<lparr>role := Listener, listeningTo := Some target\<rparr>),
                 stations := AList.update target
                               (st\<lparr>listeners := set_add w (listeners st)\<rparr>) sts1\<rparr>)"

definition listen_stop :: "ws \<Rightarrow> client \<Rightarrow> live \<Rightarrow> live" where
  "listen_stop w c s =
     s\<lparr>clients := (clients s)(w \<mapsto> c\<lparr>role := Idle, listeningTo := None\<rparr>),
       stations := leave_current w c (stations s)\<rparr>"

text \<open>
  The message handler of a presence connection. The handler's \<^verbatim>\<open>client\<close> is the object
  stored in \<open>live.clients\<close> under the socket; a socket without a client object (one that
  has closed) receives no frames.
\<close>

definition presence_message ::
  "(string \<Rightarrow> jsnum) \<Rightarrow> (ws \<Rightarrow> nat) \<Rightarrow> int \<Rightarrow> ws \<Rightarrow> presence_msg \<Rightarrow> live \<Rightarrow> live \<times> ws_call list" where
  "presence_message StringToNumber readyState now w msg s =
     (case clients s w of None \<Rightarrow> (s, [])
      | Some c \<Rightarrow>
          (case msg of
             Identify x \<Rightarrow> (s\<lparr>clients := (clients s)(w \<mapsto> c\<lparr>flat_id := Some (normalizeFlatId x)\<rparr>)\<rparr>, [])
           | BroadcastStart \<Rightarrow> broadcast_start readyState now w c s
           | BroadcastStop \<Rightarrow> (broadcast_stop w c s, [])
           | BroadcastStatus a b p sp lv \<Rightarrow> (broadcast_status StringToNumber c a b p sp lv s, [])
           | ListenStart t \<Rightarrow> (listen_start w c t s, [])
           | ListenStop \<Rightarrow> (listen_stop w c s, [])
           | OtherFrame \<Rightarrow> (s, [])))"

text \<open>The close handler of a presence connection.\<close>

definition presence_close :: "ws \<Rightarrow> live \<Rightarrow> live" where
  "presence_close w s =
     (case clients s w of None \<Rightarrow> s
      | Some c \<Rightarrow>
          let sts1 = leave_current w c (stations s) in
          (case (if role c = Broadcaster then truthy (flat_id c) else None) of
             None \<Rightarrow> s\<lparr>clients := (clients s)(w := None), stations := sts1\<rparr>
           | Some f \<Rightarrow>
               let cs1 = (case map_of sts1 f of None \<Rightarrow> clients s
                          | Some st \<Rightarrow> reset_listeners (listeners st) (clients s))
               in s\<lparr>clients := cs1(w := None), stations := AList.delete f sts1\<rparr>))"

text \<open>
  The states the presence plane can reach from the empty registry: a new connection
  (a socket that has no client object yet), a frame on a connection, a close.
\<close>

inductive reachable :: "live \<Rightarrow> bool" where
  reachable_init: "reachable live_init"
| reachable_connect:
    "reachable s \<Longrightarrow> clients s w = None \<Longrightarrow> reachable (presence_connect w addr now s)"
| reachable_message:
    "reachable s \<Longrightarrow> reachable (fst (presence_message StringToNumber readyState now w msg s))"
| reachable_close:
    "reachable s \<Longrightarrow> reachable (presence_close w s)"


subsection \<open>Consistency of clients and listener sets\<close>

text \<open>
  The registry never has a station under the empty flat id; a client that has a
  \<open>listeningTo\<close> is in the listener set of that station, which exists; and a socket in a
  listener set has a client object whose \<open>listeningTo\<close> is that station.
\<close>

definition inv_maps :: "(ws \<rightharpoonup> client) \<Rightarrow> (string \<rightharpoonup> station) \<Rightarrow> bool" where
  "inv_maps C S \<longleftrightarrow>
     S '''' = None \<and>
     (\<forall>w c f. C w = Some c \<longrightarrow> listeningTo c = Some f \<longrightarrow>
        (\<exists>st. S f = Some st \<and> w \<in> set (listeners st))) \<and>
     (\<forall>f st w. S f = Some st \<longrightarrow> w \<in> set (listeners st) \<longrightarrow>
        (\<exists>c. C w = Some c \<and> listeningTo c = Some f))"

definition presence_inv :: "live \<Rightarrow> bool" where
  "presence_inv s = inv_maps (clients s) (map_of (stations s))"

definition unlisten :: "ws \<Rightarrow> station \<Rightarrow> station" where
  "unlisten w st = st\<lparr>listeners := removeAll w (listeners st)\<rparr>"

definition to_idle :: "client \<Rightarrow> client" where
  "to_idle lc = lc\<lparr>role := Idle, listeningTo := None\<rparr>"

section \<open>The public station list\<close>

text \<open>An element of the array that \<^verbatim>\<open>buildPublicStations\<close> returns.\<close>

record public_station =
  pub_id :: string
  pub_name :: string
  pub_live :: bool
  pub_listeners :: nat
  pub_startedAt :: int

definition public_entry :: "string \<times> station \<Rightarrow> public_station" where
  "public_entry e =
     \<lparr>pub_id = fst e, pub_name = fst e, pub_live = True,
      pub_listeners = length (listeners (snd e)), pub_startedAt = startedAt (snd e)\<rparr>"

text \<open>
  \<^verbatim>\<open>out.sort((a, b) => String(a.id).localeCompare(String(b.id)))\<close>. The comparison of
  two strings by \<^verbatim>\<open>localeCompare\<close> belongs to the host and is a parameter. The array
  sort is stable: an element goes in front of the first element that it does not
  compare greater than.
\<close>

fun insert_by_id ::
  "(string \<Rightarrow> string \<Rightarrow> int) \<Rightarrow> public_station \<Rightarrow> public_station list \<Rightarrow> public_station list" where
  "insert_by_id localeCompare a [] = [a]"
| "insert_by_id localeCompare a (b # bs) =
     (if localeCompare (pub_id a) (pub_id b) \<le> 0 then a # b # bs
      else b # insert_by_id localeCompare a bs)"

definition sort_by_id ::
  "(string \<Rightarrow> string \<Rightarrow> int) \<Rightarrow> public_station list \<Rightarrow> public_station list" where
  "sort_by_id localeCompare xs = foldr (insert_by_id localeCompare) xs []"

definition buildPublicStations ::
  "(string \<Rightarrow> string \<Rightarrow> int) \<Rightarrow> (string \<times> station) list \<Rightarrow> public_station list" where
  "buildPublicStations localeCompare sts = sort_by_id localeCompare (map public_entry sts)"

text \<open>What the public list may depend on: the key, the number of listeners, the start time.\<close>

definition public_part :: "string \<times> station \<Rightarrow> string \<times> nat \<times> int" where
  "public_part e = (fst e, length (listeners (snd e)), startedAt (snd e))"

section \<open>Signaling plane\<close>

datatype signal_role = Unknown | SigBroadcaster | SigListener

record signal_client =
  sc_id :: string
  sc_flat_id :: "string option"
  sc_ip :: string
  sc_role :: signal_role
  sc_listeningTo :: "string option"

text \<open>
  \<open>signalClients\<close> is searched in insertion order by the relay handlers, so it is an
  association list; \<open>stationBroadcasterWS\<close> is only read and written by key.
\<close>

record signal =
  signalClients :: "(ws \<times> signal_client) list"
  stationBroadcasterWS :: "string \<rightharpoonup> ws"

definition signal_init :: signal where
  "signal_init = \<lparr>signalClients = [], stationBroadcasterWS = Map.empty\<rparr>"

datatype signal_msg =
    SigIdentify "string option" "string option"
  | ListenJoin "string option"
  | ListenLeave
  | WebrtcOffer "string option" string
  | WebrtcAnswer "string option" string
  | WebrtcIce "string option" "string option" string
  | SigOther

text \<open>
  A new signaling connection. \<open>new_id\<close> is the value of \<^verbatim>\<open>makeId()\<close>, sixteen hex digits
  from the random generator.
\<close>

definition signal_connect ::
  "(ws \<Rightarrow> nat) \<Rightarrow> ws \<Rightarrow> string \<Rightarrow> string \<Rightarrow> signal \<Rightarrow> signal \<times> ws_call list" where
  "signal_connect readyState w addr new_id s =
     (s\<lparr>signalClients := AList.update w
          \<lparr>sc_id = new_id, sc_flat_id = None, sc_ip = addr, sc_role = Unknown,
           sc_listeningTo = None\<rparr> (signalClients s)\<rparr>,
      safeSend readyState (Some w) (Hello new_id))"

text \<open>
  \<^verbatim>\<open>[...signalClients.entries()].find(([w, c]) => c.id === msg.listenerId)?.[0]\<close>
\<close>

definition find_listener :: "string option \<Rightarrow> (ws \<times> signal_client) list \<Rightarrow> ws option" where
  "find_listener listenerId cs =
     map_option fst (find (\<lambda>e. Some (sc_id (snd e)) = listenerId) cs)"

definition signal_identify ::
  "(ws \<Rightarrow> nat) \<Rightarrow> ws \<Rightarrow> signal_client \<Rightarrow> string option \<Rightarrow> string option \<Rightarrow> signal
     \<Rightarrow> signal \<times> ws_call list" where
  "signal_identify readyState w sc m_flat_id m_role s =
     (let f = normalizeFlatId m_flat_id;
          sc1 = sc\<lparr>sc_flat_id := Some f,
                   sc_role := (if m_role = Some ''broadcaster'' then SigBroadcaster
                               else SigListener)\<rparr>;
          s1 = s\<lparr>signalClients := AList.update w sc1 (signalClients s)\<rparr>
      in if sc_role sc1 = SigBroadcaster
         then (case stationBroadcasterWS s f of
                 None \<Rightarrow> (s1\<lparr>stationBroadcasterWS := (stationBroadcasterWS s)(f \<mapsto> w)\<rparr>, [])
               | Some other \<Rightarrow>
                   (s1, safeSend readyState (Some w) (BroadcastDenied ''ALREADY_BROADCASTING'')
                        @ [WsClose w 1008 ''already broadcasting'']))
         else (s1, []))"

text \<open>\<open>sts\<close> is the station registry of the presence plane, \<open>live.stations\<close>.\<close>

definition listen_join ::
  "(ws \<Rightarrow> nat) \<Rightarrow> ws \<Rightarrow> signal_client \<Rightarrow> string option \<Rightarrow> (string \<times> station) list \<Rightarrow> signal
     \<Rightarrow> signal \<times> ws_call list" where
  "listen_join readyState w sc m_targetFlat sts s =
     (let targetFlat = normalizeFlatId m_targetFlat;
          sc1 = sc\<lparr>sc_role := SigListener, sc_listeningTo := Some targetFlat\<rparr>;
          s1 = s\<lparr>signalClients := AList.update w sc1 (signalClients s)\<rparr>
      in case map_of sts targetFlat of
           None \<Rightarrow> (s1, safeSend readyState (Some w) (ListenError ''STATION_OFFLINE''))
         | Some st \<Rightarrow>
             (case stationBroadcasterWS s targetFlat of
                None \<Rightarrow>
                  (s1, safeSend readyState (Some w) (ListenError ''BROADCASTER_SIGNAL_NOT_READY''))
              | Some bws \<Rightarrow>
                  (s1, safeSend readyState (Some bws) (ListenerJoin (sc_id sc1))
                       @ safeSend readyState (Some w) (ListenOk targetFlat))))"

definition listen_leave ::
  "(ws \<Rightarrow> nat) \<Rightarrow> ws \<Rightarrow> signal_client \<Rightarrow> signal \<Rightarrow> signal \<times> ws_call list" where
  "listen_leave readyState w sc s =
     (case truthy (sc_listeningTo sc) of
        None \<Rightarrow> (s, [])
      | Some target \<Rightarrow>
          (s\<lparr>signalClients := AList.update w (sc\<lparr>sc_listeningTo := None\<rparr>) (signalClients s)\<rparr>,
           case stationBroadcasterWS s target of
             None \<Rightarrow> []
           | Some bws \<Rightarrow> safeSend readyState (Some bws) (ListenerLeave (sc_id sc))))"

definition webrtc_ice ::
  "(ws \<Rightarrow> nat) \<Rightarrow> signal_client \<Rightarrow> string option \<Rightarrow> string option \<Rightarrow> string \<Rightarrow> signal
     \<Rightarrow> ws_call list" where
  "webrtc_ice readyState sc m_listenerId m_broadcasterFlat candidate s =
     (if sc_role sc = SigBroadcaster \<and> truthy m_listenerId \<noteq> None
      then (case find_listener m_listenerId (signalClients s) of
              None \<Rightarrow> []
            | Some listenerWs \<Rightarrow>
                safeSend readyState (Some listenerWs) (IceFromBroadcaster (sc_id sc) candidate))
      else if sc_role sc = SigListener \<and> truthy m_broadcasterFlat \<noteq> None
      then (case stationBroadcasterWS s (normalizeFlatId m_broadcasterFlat) of
              None \<Rightarrow> []
            | Some bws \<Rightarrow> safeSend readyState (Some bws) (IceFromListener (sc_id sc) candidate))
      else [])"

text \<open>
  The message handler of a signaling connection; \<^verbatim>\<open>sc\<close> is the object stored in
  \<open>signalClients\<close> under the socket.
\<close>

definition signal_message ::
  "(ws \<Rightarrow> nat) \<Rightarrow> ws \<Rightarrow> signal_msg \<Rightarrow> (string \<times> station) list \<Rightarrow> signal
     \<Rightarrow> signal \<times> ws_call list" where
  "signal_message readyState w msg sts s =
     (case map_of (signalClients s) w of None \<Rightarrow> (s, [])
      | Some sc \<Rightarrow>
          (case msg of
             SigIdentify x r \<Rightarrow> signal_identify readyState w sc x r s
           | ListenJoin t \<Rightarrow> listen_join readyState w sc t sts s
           | ListenLeave \<Rightarrow> listen_leave readyState w sc s
           | WebrtcOffer listenerId sdp \<Rightarrow>
               (s, case find_listener listenerId (signalClients s) of
                     None \<Rightarrow> []
                   | Some listenerWs \<Rightarrow>
                       safeSend readyState (Some listenerWs) (OfferFrom (sc_id sc) sdp))
           | WebrtcAnswer broadcasterFlat sdp \<Rightarrow>
               (s, case stationBroadcasterWS s (normalizeFlatId broadcasterFlat) of
                     None \<Rightarrow> []
                   | Some bws \<Rightarrow> safeSend readyState (Some bws) (AnswerFrom (sc_id sc) sdp))
           | WebrtcIce listenerId broadcasterFlat candidate \<Rightarrow>
               (s, webrtc_ice readyState sc listenerId broadcasterFlat candidate s)
           | SigOther \<Rightarrow> (s, [])))"

text \<open>The close handler of a signaling connection.\<close>

definition signal_close :: "ws \<Rightarrow> signal \<Rightarrow> signal" where
  "signal_close w s =
     (case map_of (signalClients s) w of None \<Rightarrow> s
      | Some c \<Rightarrow>
          let idx = (case (if sc_role c = SigBroadcaster then truthy (sc_flat_id c) else None) of
                       None \<Rightarrow> stationBroadcasterWS s
                     | Some f \<Rightarrow> if stationBroadcasterWS s f = Some w
                                 then (stationBroadcasterWS s)(f := None)
                                 else stationBroadcasterWS s)
          in s\<lparr>signalClients := AList.delete w (signalClients s), stationBroadcasterWS := idx\<rparr>)"

section \<open>Identity store\<close>

text \<open>
  The tables of \<^verbatim>\<open>migrate()\<close>, with the columns the functions use. \<^verbatim>\<open>BIGINT\<close> columns
  are integers, a nullable column is an option. The driver hands a \<^verbatim>\<open>BIGINT\<close> to
  JavaScript as a string of digits, so a value that is not NULL is truthy, whatever the
  number; \<^verbatim>\<open>!r.used_at\<close> is the test for NULL.
\<close>

record flat_request =
  req_id :: nat
  req_flat_id :: string
  req_name :: string
  req_note :: string
  req_status :: string
  req_created_at :: int
  req_updated_at :: int

record flat =
  flat_flat_id :: string
  flat_status :: string
  pin_hash :: "string option"
  password_hash :: "string option"
  strike_count :: int
  ban_until :: "int option"
  requires_admin_revoke :: bool
  flat_created_at :: int
  flat_updated_at :: int
  last_login_at :: "int option"

record setup_code =
  code_id :: nat
  code_flat_id :: string
  code_hash :: string
  expires_at :: int
  used_at :: "int option"
  code_created_at :: int

text \<open>\<open>flat_requests_seq\<close> is the last value of the sequence behind \<^verbatim>\<open>flat_requests.id\<close>.\<close>

record db =
  flat_requests :: "flat_request list"
  flat_requests_seq :: nat
  flats :: "flat list"
  setup_codes :: "setup_code list"

text \<open>
  \<^verbatim>\<open>ORDER BY created_at DESC\<close>: the rows by falling \<open>created_at\<close>; rows with the same
  \<open>created_at\<close> stay in table order.
\<close>

definition order_desc :: "('a \<Rightarrow> int) \<Rightarrow> 'a list \<Rightarrow> 'a list" where
  "order_desc created_at rows = sort_key (\<lambda>r. - created_at r) rows"

text \<open>
  \<^verbatim>\<open>SELECT id, status FROM flat_requests WHERE flat_id = $1 AND status = 'PENDING'
  ORDER BY created_at DESC LIMIT 1\<close>
\<close>

definition pending_request :: "string \<Rightarrow> db \<Rightarrow> flat_request list" where
  "pending_request fid d =
     take 1 (order_desc req_created_at
       (filter (\<lambda>r. req_flat_id r = fid \<and> req_status r = ''PENDING'') (flat_requests d)))"

text \<open>\<^verbatim>\<open>SELECT * FROM flats WHERE flat_id = $1\<close>, then \<^verbatim>\<open>rows[0]\<close>\<close>

definition select_flat :: "string \<Rightarrow> db \<Rightarrow> flat option" where
  "select_flat fid d = find (\<lambda>f. flat_flat_id f = fid) (flats d)"

text \<open>
  \<^verbatim>\<open>SELECT id, code_hash, expires_at, used_at FROM setup_codes WHERE flat_id = $1
  ORDER BY created_at DESC LIMIT 5\<close>
\<close>

definition recent_codes :: "string \<Rightarrow> db \<Rightarrow> setup_code list" where
  "recent_codes fid d =
     take 5 (order_desc code_created_at (filter (\<lambda>r. code_flat_id r = fid) (setup_codes d)))"

text \<open>\<^verbatim>\<open>rows.find((r) => !r.used_at && Number(r.expires_at) > now)\<close>\<close>

definition find_valid :: "int \<Rightarrow> setup_code list \<Rightarrow> setup_code option" where
  "find_valid now rows = find (\<lambda>r. used_at r = None \<and> now < expires_at r) rows"

text \<open>\<^verbatim>\<open>/^\d{4}$/.test(s)\<close>\<close>

definition is_digit :: "char \<Rightarrow> bool" where
  "is_digit c \<longleftrightarrow> 48 \<le> (of_char c :: nat) \<and> (of_char c :: nat) \<le> 57"

definition is_pin4 :: "string \<Rightarrow> bool" where
  "is_pin4 s \<longleftrightarrow> length s = 4 \<and> list_all is_digit s"

text \<open>\<^verbatim>\<open>String(x)\<close> of a field: an absent field reads \<^verbatim>\<open>undefined\<close>.\<close>

definition js_String :: "string option \<Rightarrow> string" where
  "js_String x = (case x of None \<Rightarrow> ''undefined'' | Some s \<Rightarrow> s)"

subsection \<open>createAccessRequest\<close>

datatype request_result = RequestError string | RequestOk nat string bool

definition createAccessRequest ::
  "int \<Rightarrow> string option \<Rightarrow> string option \<Rightarrow> db \<Rightarrow> request_result \<times> db" where
  "createAccessRequest now m_flat_id m_name d =
     (let fid = normalizeFlatId m_flat_id;
          name = trim (or_empty m_name)
      in if fid = '''' \<or> name = '''' then (RequestError ''MISSING_FIELDS'', d)
         else
           (case pending_request fid d of
              existing # rest \<Rightarrow> (RequestOk (req_id existing) (req_status existing) True, d)
            | [] \<Rightarrow>
                let new_id = flat_requests_seq d + 1
                in (RequestOk new_id ''PENDING'' False,
                    d\<lparr>flat_requests := flat_requests d @
                         [\<lparr>req_id = new_id, req_flat_id = fid, req_name = name, req_note = '''',
                           req_status = ''PENDING'', req_created_at = now,
                           req_updated_at = now\<rparr>],
                      flat_requests_seq := new_id\<rparr>)))"

subsection \<open>setupPinWithCode\<close>

text \<open>
  \<open>compare\<close> is \<^verbatim>\<open>bcrypt.compare\<close> and \<open>hash\<close> is \<^verbatim>\<open>bcrypt.hash(_, 10)\<close> with the salts
  this call draws; both belong to the bcrypt library and are parameters.
\<close>

datatype setup_result = SetupError string | SetupOk

definition setupPinWithCode ::
  "(string \<Rightarrow> string \<Rightarrow> bool) \<Rightarrow> (string \<Rightarrow> string) \<Rightarrow> int \<Rightarrow>
   string option \<Rightarrow> string option \<Rightarrow> string option \<Rightarrow> string option \<Rightarrow> db \<Rightarrow> setup_result \<times> db" where
  "setupPinWithCode compare hash now m_flat_id m_code m_pin4 m_password d =
     (let fid = normalizeFlatId m_flat_id in
      if fid = '''' \<or> truthy m_code = None \<or> truthy m_pin4 = None
      then (SetupError ''MISSING_FIELDS'', d)
      else if \<not> is_pin4 (js_String m_pin4) then (SetupError ''PIN_MUST_BE_4_DIGITS'', d)
      else
        (case select_flat fid d of
           None \<Rightarrow> (SetupError ''FLAT_NOT_FOUND'', d)
         | Some fl \<Rightarrow>
             if flat_status fl \<noteq> ''ACTIVE'' then (SetupError ''FLAT_DISABLED'', d)
             else
               (case find_valid now (recent_codes fid d) of
                  None \<Rightarrow> (SetupError ''NO_VALID_CODE'', d)
                | Some valid \<Rightarrow>
                    if \<not> compare (trim (js_String m_code)) (code_hash valid)
                    then (SetupError ''INVALID_CODE'', d)
                    else
                      let new_pin_hash = hash (js_String m_pin4);
                          new_password_hash =
                            (case truthy m_password of None \<Rightarrow> None | Some p \<Rightarrow> Some (hash p))
                      in (SetupOk,
                          d\<lparr>flats := map (\<lambda>f. if flat_flat_id f = fid
                                then f\<lparr>pin_hash := Some new_pin_hash,
                                       password_hash := new_password_hash,
                                       flat_updated_at := now\<rparr>
                                else f) (flats d),
                            setup_codes := map (\<lambda>r. if code_id r = code_id valid
                                then r\<lparr>used_at := Some now\<rparr> else r) (setup_codes d)\<rparr>))))"

subsection \<open>loginFlat\<close>

datatype login_result = LoginError string | Banned int | LoginOk string

text \<open>\<^verbatim>\<open>flat.ban_until && Number(flat.ban_until) > now\<close>, with the \<open>ban_until\<close> to report\<close>

definition banned_until :: "int \<Rightarrow> flat \<Rightarrow> int option" where
  "banned_until now fl =
     (case ban_until fl of None \<Rightarrow> None | Some b \<Rightarrow> if now < b then Some b else None)"

definition loginFlat ::
  "(string \<Rightarrow> string \<Rightarrow> bool) \<Rightarrow> int \<Rightarrow> string option \<Rightarrow> string option \<Rightarrow> string option \<Rightarrow> db
     \<Rightarrow> login_result \<times> db" where
  "loginFlat compare now m_flat_id m_pin4 m_password d =
     (let fid = normalizeFlatId m_flat_id in
      case select_flat fid d of
        None \<Rightarrow> (LoginError ''FLAT_NOT_FOUND'', d)
      | Some fl \<Rightarrow>
          if flat_status fl \<noteq> ''ACTIVE'' then (LoginError ''FLAT_DISABLED'', d)
          else
          (case banned_until now fl of
             Some b \<Rightarrow> (Banned b, d)
           | None \<Rightarrow>
          if requires_admin_revoke fl then (LoginError ''ADMIN_REVOKE_REQUIRED'', d)
          else
            (case truthy (pin_hash fl) of
               None \<Rightarrow> (LoginError ''PIN_NOT_SET'', d)
             | Some ph \<Rightarrow>
                 if \<not> is_pin4 (js_String m_pin4) then (LoginError ''INVALID_PIN'', d)
                 else if \<not> compare (js_String m_pin4) ph
                 then (LoginError ''INVALID_CREDENTIALS'', d)
                 else
                   let logged_in =
                     (LoginOk fid,
                      d\<lparr>flats := map (\<lambda>f. if flat_flat_id f = fid
                            then f\<lparr>last_login_at := Some now, flat_updated_at := now\<rparr>
                            else f) (flats d)\<rparr>)
                   in (case truthy (password_hash fl) of
                         None \<Rightarrow> logged_in
                       | Some pwh \<Rightarrow>
                           (case truthy m_password of
                              None \<Rightarrow> (LoginError ''PASSWORD_REQUIRED'', d)
                            | Some p \<Rightarrow>
                                if \<not> compare p pwh then (LoginError ''INVALID_CREDENTIALS'', d)
                                else logged_in)))))"

section \<open>Example runs\<close>

text \<open>
  Concrete inputs for the examples: every socket is open, and a string-to-number
  conversion that the examples apply to no string.
\<close>

definition sample_open :: "ws \<Rightarrow> nat" where
  "sample_open w = 1"

definition sample_StringToNumber :: "string \<Rightarrow> jsnum" where
  "sample_StringToNumber s = (if s = '''' then Fin 0 else NaN)"

text \<open>Socket 0 connects, identifies as \<^verbatim>\<open>" a1 "\<close> and starts to broadcast.\<close>

definition on_air :: live where
  "on_air =
     fst (presence_message sample_StringToNumber sample_open 1000 0 BroadcastStart
       (fst (presence_message sample_StringToNumber sample_open 1000 0 (Identify (Some '' a1 ''))
         (presence_connect 0 ''10.0.0.1'' 900 live_init))))"

text \<open>A second device of the same flat connects as socket 1 and identifies.\<close>

definition two_devices :: live where
  "two_devices =
     fst (presence_message sample_StringToNumber sample_open 1500 1 (Identify (Some ''A1''))
       (presence_connect 1 ''10.0.0.2'' 1400 on_air))"

text \<open>
  Instead, a listener of flat B2 connects as socket 1, identifies and starts to listen
  to A1.
\<close>

definition with_listener :: live where
  "with_listener =
     fst (presence_message sample_StringToNumber sample_open 1700 1 (ListenStart (Some ''A1''))
       (fst (presence_message sample_StringToNumber sample_open 1500 1 (Identify (Some ''B2''))
         (presence_connect 1 ''10.0.0.2'' 1400 on_air))))"

text \<open>The listener then sends \<^verbatim>\<open>broadcast:stop\<close>.\<close>

definition stop_while_listening :: live where
  "stop_while_listening =
     fst (presence_message sample_StringToNumber sample_open 1800 1 BroadcastStop with_listener)"

text \<open>
  A comparison of strings for the examples: by character code, the shorter string first
  when one is a prefix of the other.
\<close>

fun sample_localeCompare :: "string \<Rightarrow> string \<Rightarrow> int" where
  "sample_localeCompare [] [] = 0"
| "sample_localeCompare [] (y # ys) = - 1"
| "sample_localeCompare (x # xs) [] = 1"
| "sample_localeCompare (x # xs) (y # ys) =
     (if (of_char x :: nat) < of_char y then - 1
      else if (of_char y :: nat) < of_char x then 1
      else sample_localeCompare xs ys)"

text \<open>A registry with two stations, B2 inserted before A1.\<close>

definition two_stations :: "(string \<times> station) list" where
  "two_stations =
     [(''B2'', \<lparr>st_ip = ''10.0.0.2'', startedAt = 2000, listeners = [3, 4], audio = default_audio\<rparr>),
      (''A1'', \<lparr>st_ip = ''10.0.0.1'', startedAt = 1000, listeners = [], audio = default_audio\<rparr>)]"

text \<open>The same stations on other hosts, with other listeners and other telemetry.\<close>

definition two_stations_elsewhere :: "(string \<times> station) list" where
  "two_stations_elsewhere =
     [(''B2'', \<lparr>st_ip = ''192.168.7.7'', startedAt = 2000, listeners = [8, 9],
               audio = default_audio\<lparr>micOn := True\<rparr>\<rparr>),
      (''A1'', \<lparr>st_ip = ''192.168.7.8'', startedAt = 1000, listeners = [],
               audio = default_audio\<rparr>)]"

text \<open>
  On the signaling channel, socket 0 connects and identifies as the broadcaster of A1;
  then socket 1 connects.
\<close>

definition signal_on_air :: signal where
  "signal_on_air =
     fst (signal_connect sample_open 1 ''10.0.0.2'' ''00000000000000b2''
       (fst (signal_message sample_open 0 (SigIdentify (Some ''a1'') (Some ''broadcaster'')) []
         (fst (signal_connect sample_open 0 ''10.0.0.1'' ''00000000000000a1'' signal_init)))))"

text \<open>The same, but socket 0 identifies as a broadcaster without a flat id.\<close>

definition nameless_broadcaster :: signal where
  "nameless_broadcaster =
     fst (signal_connect sample_open 1 ''10.0.0.2'' ''00000000000000b2''
       (fst (signal_message sample_open 0 (SigIdentify None (Some ''broadcaster'')) []
         (fst (signal_connect sample_open 0 ''10.0.0.1'' ''00000000000000a1'' signal_init)))))"

text \<open>An empty database, and the database after flat A1 has asked for access once.\<close>

definition empty_db :: db where
  "empty_db = \<lparr>flat_requests = [], flat_requests_seq = 0, flats = [], setup_codes = []\<rparr>"

definition one_request :: db where
  "one_request =
     \<lparr>flat_requests =
        [\<lparr>req_id = 1, req_flat_id = ''A1'', req_name = ''Ava'', req_note = '''',
          req_status = ''PENDING'', req_created_at = 1000, req_updated_at = 1000\<rparr>],
      flat_requests_seq = 1, flats = [], setup_codes = []\<rparr>"

text \<open>
  A hash and a comparison for the examples (the hash of a text is the text behind a fixed
  prefix), a flat row that can log in with PIN 5678 and a password, and a database of
  five flats that differ from it in one column each.
\<close>

definition sample_hash :: "string \<Rightarrow> string" where
  "sample_hash s = ''$2b$10$'' @ s"

definition sample_compare :: "string \<Rightarrow> string \<Rightarrow> bool" where
  "sample_compare s h \<longleftrightarrow> h = sample_hash s"

definition sample_flat :: "string \<Rightarrow> flat" where
  "sample_flat fid =
     \<lparr>flat_flat_id = fid, flat_status = ''ACTIVE'', pin_hash = Some (sample_hash ''5678''),
      password_hash = Some (sample_hash ''hunter2''), strike_count = 0, ban_until = None,
      requires_admin_revoke = False, flat_created_at = 100, flat_updated_at = 100,
      last_login_at = None\<rparr>"

definition five_flats :: db where
  "five_flats =
     \<lparr>flat_requests = [], flat_requests_seq = 0,
      flats = [sample_flat ''A1'',
               (sample_flat ''B2'')\<lparr>flat_status := ''DISABLED''\<rparr>,
               (sample_flat ''C3'')\<lparr>ban_until := Some 9000\<rparr>,
               (sample_flat ''D4'')\<lparr>requires_admin_revoke := True\<rparr>,
               (sample_flat ''E5'')\<lparr>pin_hash := None\<rparr>],
      setup_codes = []\<rparr>"

text \<open>
  Setup codes of flat A1 that expire at 9000, and databases before and after flat A1
  sets PIN 5678 with code 1234 at time 1000: with that code alone, and with an older
  code 4321 beside it.
\<close>

definition sample_code :: "nat \<Rightarrow> string \<Rightarrow> int \<Rightarrow> setup_code" where
  "sample_code n code created =
     \<lparr>code_id = n, code_flat_id = ''A1'', code_hash = sample_hash code, expires_at = 9000,
      used_at = None, code_created_at = created\<rparr>"

definition one_code :: db where
  "one_code =
     \<lparr>flat_requests = [], flat_requests_seq = 0,
      flats = [(sample_flat ''A1'')\<lparr>pin_hash := None, password_hash := None\<rparr>],
      setup_codes = [sample_code 1 ''1234'' 500]\<rparr>"

definition one_code_used :: db where
  "one_code_used =
     \<lparr>flat_requests = [], flat_requests_seq = 0,
      flats = [(sample_flat ''A1'')\<lparr>pin_hash := Some (sample_hash ''5678''),
                 password_hash := None, flat_updated_at := 1000\<rparr>],
      setup_codes = [(sample_code 1 ''1234'' 500)\<lparr>used_at := Some 1000\<rparr>]\<rparr>"

definition two_codes :: db where
  "two_codes =
     \<lparr>flat_requests = [], flat_requests_seq = 0,
      flats = [(sample_flat ''A1'')\<lparr>pin_hash := None, password_hash := None\<rparr>],
      setup_codes = [sample_code 1 ''4321'' 400, sample_code 2 ''1234'' 500]\<rparr>"

definition two_codes_used :: db where
  "two_codes_used =
     \<lparr>flat_requests = [], flat_requests_seq = 0,
      flats = [(sample_flat ''A1'')\<lparr>pin_hash := Some (sample_hash ''5678''),
                 password_hash := None, flat_updated_at := 1000\<rparr>],
      setup_codes = [sample_code 1 ''4321'' 400,
                     (sample_code 2 ''1234'' 500)\<lparr>used_at := Some 1000\<rparr>]\<rparr>"

section \<open>Properties of the presence plane\<close>

subsection \<open>The consistency invariant on the two maps\<close>

text \<open>
  Each lemma is one kind of change to the client map and the station map that the
  handlers make, and shows that it keeps \<open>inv_maps\<close>.
\<close>

lemma inv_mapsI:
  assumes "S '''' = None"
    and "\<And>w c f. C w = Some c \<Longrightarrow> listeningTo c = Some f \<Longrightarrow>
           \<exists>st. S f = Some st \<and> w \<in> set (listeners st)"
    and "\<And>f st w. S f = Some st \<Longrightarrow> w \<in> set (listeners st) \<Longrightarrow>
           \<exists>c. C w = Some c \<and> listeningTo c = Some f"
  shows "inv_maps C S"
  using assms unfolding inv_maps_def by blast

lemma inv_maps_no_empty: "inv_maps C S \<Longrightarrow> S '''' = None"
  unfolding inv_maps_def by blast

lemma inv_maps_listening:
  "inv_maps C S \<Longrightarrow> C w = Some c \<Longrightarrow> listeningTo c = Some f \<Longrightarrow>
     \<exists>st. S f = Some st \<and> w \<in> set (listeners st)"
  unfolding inv_maps_def by blast

lemma inv_maps_member:
  "inv_maps C S \<Longrightarrow> S f = Some st \<Longrightarrow> w \<in> set (listeners st) \<Longrightarrow>
     \<exists>c. C w = Some c \<and> listeningTo c = Some f"
  unfolding inv_maps_def by blast

lemma listeners_unlisten [simp]: "set (listeners (unlisten w st)) = set (listeners st) - {w}"
  by (simp add: unlisten_def)

lemma listeningTo_to_idle [simp]: "listeningTo (to_idle c) = None"
  by (simp add: to_idle_def)

lemma inv_maps_leave:
  assumes inv: "inv_maps C S" and c': "listeningTo c' = None"
  shows "inv_maps (C(w \<mapsto> c')) (\<lambda>f. map_option (unlisten w) (S f))"
proof (rule inv_mapsI)
  show "map_option (unlisten w) (S '''') = None"
    using inv_maps_no_empty [OF inv] by simp
next
  fix v c f
  assume a: "(C(w \<mapsto> c')) v = Some c" "listeningTo c = Some f"
  with c' have "v \<noteq> w" by auto
  with a have "C v = Some c" by simp
  from inv_maps_listening [OF inv this a(2)] obtain st
    where "S f = Some st" "v \<in> set (listeners st)" by blast
  with \<open>v \<noteq> w\<close> show "\<exists>st. map_option (unlisten w) (S f) = Some st \<and> v \<in> set (listeners st)"
    by simp
next
  fix f st v
  assume a: "map_option (unlisten w) (S f) = Some st" "v \<in> set (listeners st)"
  then obtain st0 where st0: "S f = Some st0" "st = unlisten w st0" by auto
  with a have "v \<in> set (listeners st0)" "v \<noteq> w" by auto
  from inv_maps_member [OF inv st0(1) this(1)] \<open>v \<noteq> w\<close>
  show "\<exists>c. (C(w \<mapsto> c')) v = Some c \<and> listeningTo c = Some f" by simp
qed

lemma inv_maps_remove:
  assumes inv: "inv_maps C S"
  shows "inv_maps (C(w := None)) (\<lambda>f. map_option (unlisten w) (S f))"
proof (rule inv_mapsI)
  show "map_option (unlisten w) (S '''') = None"
    using inv_maps_no_empty [OF inv] by simp
next
  fix v c f
  assume a: "(C(w := None)) v = Some c" "listeningTo c = Some f"
  then have "v \<noteq> w" by auto
  with a have "C v = Some c" by simp
  from inv_maps_listening [OF inv this a(2)] obtain st
    where "S f = Some st" "v \<in> set (listeners st)" by blast
  with \<open>v \<noteq> w\<close> show "\<exists>st. map_option (unlisten w) (S f) = Some st \<and> v \<in> set (listeners st)"
    by simp
next
  fix f st v
  assume a: "map_option (unlisten w) (S f) = Some st" "v \<in> set (listeners st)"
  then obtain st0 where st0: "S f = Some st0" "st = unlisten w st0" by auto
  with a have "v \<in> set (listeners st0)" "v \<noteq> w" by auto
  from inv_maps_member [OF inv st0(1) this(1)] \<open>v \<noteq> w\<close>
  show "\<exists>c. (C(w := None)) v = Some c \<and> listeningTo c = Some f" by simp
qed

lemma inv_maps_add_station:
  assumes inv: "inv_maps C S" and new: "S f = None" "f \<noteq> ''''" "listeners new = []"
  shows "inv_maps C (S(f \<mapsto> new))"
proof (rule inv_mapsI)
  show "(S(f \<mapsto> new)) '''' = None"
    using inv_maps_no_empty [OF inv] new by simp
next
  fix v c g
  assume a: "C v = Some c" "listeningTo c = Some g"
  from inv_maps_listening [OF inv a] obtain st
    where st: "S g = Some st" "v \<in> set (listeners st)" by blast
  with new have "g \<noteq> f" by auto
  with st show "\<exists>st. (S(f \<mapsto> new)) g = Some st \<and> v \<in> set (listeners st)" by simp
next
  fix g st v
  assume a: "(S(f \<mapsto> new)) g = Some st" "v \<in> set (listeners st)"
  with new have "g \<noteq> f" by (cases "g = f") auto
  with a have "S g = Some st" by simp
  from inv_maps_member [OF inv this a(2)]
  show "\<exists>c. C v = Some c \<and> listeningTo c = Some g" .
qed

lemma inv_maps_client_upd:
  assumes inv: "inv_maps C S" and c: "C w = Some c" "listeningTo c' = listeningTo c"
  shows "inv_maps (C(w \<mapsto> c')) S"
proof (rule inv_mapsI)
  show "S '''' = None" by (rule inv_maps_no_empty [OF inv])
next
  fix v d g
  assume a: "(C(w \<mapsto> c')) v = Some d" "listeningTo d = Some g"
  show "\<exists>st. S g = Some st \<and> v \<in> set (listeners st)"
  proof (cases "v = w")
    case True
    with a c have "listeningTo c = Some g" by simp
    from inv_maps_listening [OF inv c(1) this] True show ?thesis by simp
  next
    case False
    with a have "C v = Some d" by simp
    from inv_maps_listening [OF inv this a(2)] show ?thesis .
  qed
next
  fix g st v
  assume a: "S g = Some st" "v \<in> set (listeners st)"
  from inv_maps_member [OF inv a] obtain d where d: "C v = Some d" "listeningTo d = Some g"
    by blast
  show "\<exists>c. (C(w \<mapsto> c')) v = Some c \<and> listeningTo c = Some g"
  proof (cases "v = w")
    case True
    with d c show ?thesis by simp
  next
    case False
    with d show ?thesis by simp
  qed
qed

lemma inv_maps_delete_station:
  assumes inv: "inv_maps C S"
  shows "inv_maps (\<lambda>w. if w \<in> (case S f of None \<Rightarrow> {} | Some st \<Rightarrow> set (listeners st))
                        then map_option to_idle (C w) else C w) (S(f := None))"
    (is "inv_maps ?C' ?S'")
proof (rule inv_mapsI)
  show "?S' '''' = None" using inv_maps_no_empty [OF inv] by simp
next
  fix v d g
  assume a: "?C' v = Some d" "listeningTo d = Some g"
  then have notin: "v \<notin> (case S f of None \<Rightarrow> {} | Some st \<Rightarrow> set (listeners st))"
    by (auto split: if_splits)
  with a have "C v = Some d" by simp
  from inv_maps_listening [OF inv this a(2)] obtain st
    where st: "S g = Some st" "v \<in> set (listeners st)" by blast
  with notin have "g \<noteq> f" by auto
  with st show "\<exists>st. ?S' g = Some st \<and> v \<in> set (listeners st)" by simp
next
  fix g st v
  assume a: "?S' g = Some st" "v \<in> set (listeners st)"
  then have g: "g \<noteq> f" "S g = Some st" by (auto split: if_splits)
  from inv_maps_member [OF inv g(2) a(2)] obtain d
    where d: "C v = Some d" "listeningTo d = Some g" by blast
  have "v \<notin> (case S f of None \<Rightarrow> {} | Some st \<Rightarrow> set (listeners st))"
  proof (cases "S f")
    case None
    then show ?thesis by simp
  next
    case (Some stf)
    show ?thesis
    proof
      assume "v \<in> (case S f of None \<Rightarrow> {} | Some st \<Rightarrow> set (listeners st))"
      with Some have "v \<in> set (listeners stf)" by simp
      from inv_maps_member [OF inv Some this] d g show False by auto
    qed
  qed
  with d show "\<exists>c. ?C' v = Some c \<and> listeningTo c = Some g" by simp
qed

lemma inv_maps_station_upd:
  assumes inv: "inv_maps C S" and st: "S f = Some st" "listeners st' = listeners st"
  shows "inv_maps C (S(f \<mapsto> st'))"
proof (rule inv_mapsI)
  from inv_maps_no_empty [OF inv] st have "f \<noteq> ''''" by auto
  with inv_maps_no_empty [OF inv] show "(S(f \<mapsto> st')) '''' = None" by simp
next
  fix v d g
  assume a: "C v = Some d" "listeningTo d = Some g"
  from inv_maps_listening [OF inv a] obtain sg
    where sg: "S g = Some sg" "v \<in> set (listeners sg)" by blast
  with st show "\<exists>st. (S(f \<mapsto> st')) g = Some st \<and> v \<in> set (listeners st)"
    by (cases "g = f") auto
next
  fix g sg v
  assume a: "(S(f \<mapsto> st')) g = Some sg" "v \<in> set (listeners sg)"
  show "\<exists>c. C v = Some c \<and> listeningTo c = Some g"
  proof (cases "g = f")
    case True
    with a st have "v \<in> set (listeners st)" by auto
    from inv_maps_member [OF inv st(1) this] True show ?thesis by simp
  next
    case False
    with a have "S g = Some sg" by simp
    from inv_maps_member [OF inv this a(2)] show ?thesis .
  qed
qed

lemma inv_maps_join:
  assumes inv: "inv_maps C S" and st: "S t = Some st" and c': "listeningTo c' = Some t"
  shows "inv_maps (C(w \<mapsto> c'))
           (\<lambda>g. if g = t then Some (st\<lparr>listeners := set_add w (listeners st)\<rparr>)
                else map_option (unlisten w) (S g))"
    (is "inv_maps ?C' ?S'")
proof (rule inv_mapsI)
  from inv_maps_no_empty [OF inv] st have "t \<noteq> ''''" by auto
  with inv_maps_no_empty [OF inv] show "?S' '''' = None" by simp
next
  fix v d g
  assume a: "?C' v = Some d" "listeningTo d = Some g"
  show "\<exists>st. ?S' g = Some st \<and> v \<in> set (listeners st)"
  proof (cases "v = w")
    case True
    with a c' have "g = t" by simp
    with True show ?thesis by (simp add: set_add_def)
  next
    case False
    with a have "C v = Some d" by simp
    from inv_maps_listening [OF inv this a(2)] obtain sg
      where sg: "S g = Some sg" "v \<in> set (listeners sg)" by blast
    with False st show ?thesis by (cases "g = t") (auto simp: set_add_def)
  qed
next
  fix g sg v
  assume a: "?S' g = Some sg" "v \<in> set (listeners sg)"
  show "\<exists>c. ?C' v = Some c \<and> listeningTo c = Some g"
  proof (cases "v = w")
    case True
    have "g = t"
    proof (rule ccontr)
      assume "g \<noteq> t"
      with a obtain s0 where "S g = Some s0" "sg = unlisten w s0" by auto
      with a True show False by simp
    qed
    with True c' show ?thesis by simp
  next
    case False
    show ?thesis
    proof (cases "g = t")
      case True
      with a \<open>v \<noteq> w\<close> have "v \<in> set (listeners st)"
        by (auto simp: set_add_def split: if_splits)
      from inv_maps_member [OF inv st this] True \<open>v \<noteq> w\<close> show ?thesis by simp
    next
      case g: False
      with a obtain s0 where s0: "S g = Some s0" "sg = unlisten w s0" by auto
      with a have "v \<in> set (listeners s0)" by simp
      from inv_maps_member [OF inv s0(1) this] \<open>v \<noteq> w\<close> show ?thesis by simp
    qed
  qed
qed

subsection \<open>Every handler keeps the invariant\<close>

lemma truthy_Some: "truthy x = Some t \<longleftrightarrow> x = Some t \<and> t \<noteq> ''''"
  by (auto simp: truthy_def split: option.splits)

lemma truthy_None: "truthy x = None \<longleftrightarrow> x = None \<or> x = Some ''''"
  by (auto simp: truthy_def split: option.splits)

lemma map_of_listeners_delete:
  "map_of (listeners_delete k w sts) =
     (case map_of sts k of None \<Rightarrow> map_of sts
      | Some st \<Rightarrow> (map_of sts)(k \<mapsto> unlisten w st))"
  by (simp add: listeners_delete_def set_delete_def unlisten_def update_conv' split: option.splits)

lemma reset_listeners_apply:
  "reset_listeners socks cs w =
     (if w \<in> set socks then map_option to_idle (cs w) else cs w)"
  by (induction socks arbitrary: cs) (auto simp: to_idle_def split: option.splits)

lemma reset_listeners_eq:
  "reset_listeners socks cs = (\<lambda>w. if w \<in> set socks then map_option to_idle (cs w) else cs w)"
  by (rule ext) (rule reset_listeners_apply)

lemma inv_listeningTo_truthy:
  assumes "inv_maps C S" "C w = Some c"
  shows "truthy (listeningTo c) = listeningTo c"
proof (cases "listeningTo c")
  case None
  then show ?thesis by (simp add: truthy_def)
next
  case (Some f)
  from inv_maps_listening [OF assms Some] inv_maps_no_empty [OF assms(1)]
  have "f \<noteq> ''''" by auto
  with Some show ?thesis by (simp add: truthy_def)
qed

lemma unlisten_absent: "w \<notin> set (listeners st) \<Longrightarrow> unlisten w st = st"
  by (simp add: unlisten_def)

lemma leave_current_map:
  assumes inv: "inv_maps C (map_of sts)" and c: "C w = Some c"
  shows "map_of (leave_current w c sts) = (\<lambda>f. map_option (unlisten w) (map_of sts f))"
proof (rule ext)
  fix f
  show "map_of (leave_current w c sts) f = map_option (unlisten w) (map_of sts f)"
  proof (cases "map_of sts f")
    case None
    then show ?thesis
      by (simp add: leave_current_def map_of_listeners_delete split: option.splits)
  next
    case (Some st)
    show ?thesis
    proof (cases "listeningTo c = Some f")
      case True
      with inv_listeningTo_truthy [OF inv c] have "truthy (listeningTo c) = Some f" by simp
      with Some show ?thesis
        by (simp add: leave_current_def map_of_listeners_delete)
    next
      case False
      have "w \<notin> set (listeners st)"
      proof
        assume "w \<in> set (listeners st)"
        from inv_maps_member [OF inv Some this] c False show False by simp
      qed
      then have "unlisten w st = st" by (rule unlisten_absent)
      with Some False show ?thesis
        by (auto simp: leave_current_def map_of_listeners_delete truthy_Some split: option.splits)
    qed
  qed
qed

lemma inv_connect:
  assumes "presence_inv s" "clients s w = None"
  shows "presence_inv (presence_connect w addr now s)"
proof -
  have inv: "inv_maps (clients s) (map_of (stations s))" using assms by (simp add: presence_inv_def)
  then have "inv_maps ((clients s)(w \<mapsto> \<lparr>flat_id = None, ip = addr, role = Idle, listeningTo = None, connectedAt = now\<rparr>))
     (\<lambda>f. map_option (unlisten w) (map_of (stations s) f))"
    by (rule inv_maps_leave) simp
  moreover have "(\<lambda>f. map_option (unlisten w) (map_of (stations s) f)) = map_of (stations s)"
  proof (rule ext)
    fix f
    show "map_option (unlisten w) (map_of (stations s) f) = map_of (stations s) f"
    proof (cases "map_of (stations s) f")
      case None then show ?thesis by simp
    next
      case (Some st)
      have "w \<notin> set (listeners st)"
      proof
        assume "w \<in> set (listeners st)"
        from inv_maps_member [OF inv Some this] assms show False
          by auto
      qed
      with Some show ?thesis by (simp add: unlisten_absent)
    qed
  qed
  ultimately show ?thesis by (simp add: presence_inv_def presence_connect_def)
qed

lemma inv_listen_stop:
  assumes "presence_inv s" "clients s w = Some c"
  shows "presence_inv (listen_stop w c s)"
proof -
  have inv: "inv_maps (clients s) (map_of (stations s))" using assms by (simp add: presence_inv_def)
  have "inv_maps ((clients s)(w \<mapsto> c\<lparr>role := Idle, listeningTo := None\<rparr>))
     (\<lambda>f. map_option (unlisten w) (map_of (stations s) f))"
    by (rule inv_maps_leave [OF inv]) simp
  then show ?thesis
    by (simp add: presence_inv_def listen_stop_def leave_current_map [OF inv assms(2)])
qed

lemma inv_identify:
  assumes "presence_inv s" "clients s w = Some c"
  shows "presence_inv (s\<lparr>clients := (clients s)(w \<mapsto> c\<lparr>flat_id := x\<rparr>)\<rparr>)"
proof -
  have inv: "inv_maps (clients s) (map_of (stations s))" using assms by (simp add: presence_inv_def)
  have "inv_maps ((clients s)(w \<mapsto> c\<lparr>flat_id := x\<rparr>)) (map_of (stations s))"
    by (rule inv_maps_client_upd [OF inv assms(2)]) simp
  then show ?thesis by (simp add: presence_inv_def)
qed

lemma inv_broadcast_status:
  assumes "presence_inv s"
  shows "presence_inv (broadcast_status N c a b p sp lv s)"
proof (cases "truthy (flat_id c)")
  case None
  with assms show ?thesis by (simp add: broadcast_status_def)
next
  case (Some f)
  show ?thesis
  proof (cases "map_of (stations s) f")
    case None
    with Some assms show ?thesis by (simp add: broadcast_status_def)
  next
    case st: (Some st)
    have inv: "inv_maps (clients s) (map_of (stations s))" using assms by (simp add: presence_inv_def)
    have "inv_maps (clients s) ((map_of (stations s))(f \<mapsto> st\<lparr>audio := \<lparr>micOn = ToBoolean a, sysOn = ToBoolean b,
                                  ptt = ToBoolean p, speaking = ToBoolean sp,
                                  micLevel = ToNumber N (or_zero lv)\<rparr>\<rparr>))"
      by (rule inv_maps_station_upd [OF inv st]) simp
    with Some st show ?thesis
      by (simp add: presence_inv_def broadcast_status_def update_conv')
  qed
qed

lemma inv_broadcast_start:
  assumes "presence_inv s" "clients s w = Some c"
  shows "presence_inv (fst (broadcast_start rs now w c s))"
proof (cases "truthy (flat_id c)")
  case None
  with assms show ?thesis by (simp add: broadcast_start_def)
next
  case (Some f)
  then have f: "f \<noteq> ''''" by (simp add: truthy_Some)
  show ?thesis
  proof (cases "map_of (stations s) f")
    case st: (Some st)
    with Some assms show ?thesis by (simp add: broadcast_start_def)
  next
    case None
    have inv: "inv_maps (clients s) (map_of (stations s))"
      using assms by (simp add: presence_inv_def)
    define c2 where "c2 = (case truthy (listeningTo c) of None \<Rightarrow> c
                         | Some t \<Rightarrow> c\<lparr>listeningTo := None\<rparr>)\<lparr>role := Broadcaster\<rparr>"
    define new where "new = \<lparr>st_ip = ip c2, startedAt = now, listeners = [], audio = default_audio\<rparr>"
    have "listeningTo c2 = None"
      using inv_listeningTo_truthy [OF inv assms(2)]
      by (cases "listeningTo c") (simp_all add: c2_def)
    with inv have "inv_maps ((clients s)(w \<mapsto> c2))
        (\<lambda>g. map_option (unlisten w) (map_of (stations s) g))"
      by (rule inv_maps_leave)
    then have "inv_maps ((clients s)(w \<mapsto> c2))
        ((\<lambda>g. map_option (unlisten w) (map_of (stations s) g))(f \<mapsto> new))"
      by (rule inv_maps_add_station) (simp_all add: None f new_def)
    moreover have "fst (broadcast_start rs now w c s) =
        s\<lparr>clients := (clients s)(w \<mapsto> c2),
          stations := AList.update f new (leave_current w c (stations s))\<rparr>"
      using Some None by (simp add: broadcast_start_def c2_def new_def Let_def)
    ultimately show ?thesis
      by (simp add: presence_inv_def update_conv' leave_current_map [OF inv assms(2)])
  qed
qed

lemma inv_broadcast_stop:
  assumes "presence_inv s" "clients s w = Some c"
  shows "presence_inv (broadcast_stop w c s)"
proof (cases "truthy (flat_id c)")
  case None
  with assms show ?thesis by (simp add: broadcast_stop_def)
next
  case (Some f)
  have inv: "inv_maps (clients s) (map_of (stations s))"
    using assms by (simp add: presence_inv_def)
  define L where "L = (case map_of (stations s) f of None \<Rightarrow> {} | Some st \<Rightarrow> set (listeners st))"
  define C1 where "C1 = (\<lambda>v. if v \<in> L then map_option to_idle (clients s v) else clients s v)"
  have cs1: "(case map_of (stations s) f of None \<Rightarrow> clients s
              | Some st \<Rightarrow> reset_listeners (listeners st) (clients s)) = C1"
    by (auto simp: C1_def L_def reset_listeners_eq split: option.splits)
  have inv1: "inv_maps C1 ((map_of (stations s))(f := None))"
    unfolding C1_def L_def by (rule inv_maps_delete_station [OF inv])
  have "\<exists>c1. C1 w = Some c1"
    using assms(2) by (simp add: C1_def)
  then obtain c1 where c1: "C1 w = Some c1" ..
  have "inv_maps (C1(w \<mapsto> c1\<lparr>role := Idle\<rparr>)) ((map_of (stations s))(f := None))"
    by (rule inv_maps_client_upd [OF inv1 c1]) simp
  moreover have "broadcast_stop w c s =
      s\<lparr>clients := C1(w \<mapsto> c1\<lparr>role := Idle\<rparr>), stations := AList.delete f (stations s)\<rparr>"
    using Some c1 by (simp add: broadcast_stop_def cs1 Let_def)
  ultimately show ?thesis by (simp add: presence_inv_def delete_conv')
qed

lemma inv_listen_start:
  assumes "presence_inv s" "clients s w = Some c"
  shows "presence_inv (listen_start w c x s)"
proof -
  define t where "t = normalizeFlatId x"
  have inv: "inv_maps (clients s) (map_of (stations s))"
    using assms by (simp add: presence_inv_def)
  show ?thesis
  proof (cases "map_of (stations s) t")
    case None
    with assms show ?thesis by (simp add: listen_start_def t_def)
  next
    case (Some st)
    show ?thesis
    proof (cases "role c = Broadcaster")
      case True
      with Some assms show ?thesis by (simp add: listen_start_def t_def)
    next
      case False
      define sts1 where "sts1 = (case truthy (listeningTo c) of None \<Rightarrow> stations s
                        | Some old \<Rightarrow> if old \<noteq> t
                                       then listeners_delete old w (stations s)
                                       else stations s)"
      define st' where "st' = st\<lparr>listeners := set_add w (listeners st)\<rparr>"
      have eq: "listen_start w c x s =
          s\<lparr>clients := (clients s)(w \<mapsto> c\<lparr>role := Listener, listeningTo := Some t\<rparr>),
            stations := AList.update t st' sts1\<rparr>"
        using Some False by (simp add: listen_start_def t_def [symmetric] sts1_def st'_def Let_def)
      have m: "map_of (AList.update t st' sts1) =
          (\<lambda>g. if g = t then Some st' else map_option (unlisten w) (map_of (stations s) g))"
      proof (rule ext)
        fix g
        show "map_of (AList.update t st' sts1) g =
            (if g = t then Some st' else map_option (unlisten w) (map_of (stations s) g))"
        proof (cases "g = t")
          case True
          then show ?thesis by (simp add: update_conv')
        next
          case g: False
          have "map_of sts1 g = map_of (leave_current w c (stations s)) g"
            using g by (auto simp: sts1_def leave_current_def map_of_listeners_delete
                split: option.splits)
          with g show ?thesis
            by (simp add: update_conv' leave_current_map [OF inv assms(2)])
        qed
      qed
      have "inv_maps ((clients s)(w \<mapsto> c\<lparr>role := Listener, listeningTo := Some t\<rparr>))
          (\<lambda>g. if g = t then Some st' else map_option (unlisten w) (map_of (stations s) g))"
        unfolding st'_def by (rule inv_maps_join [OF inv Some]) simp
      then show ?thesis by (simp add: eq presence_inv_def m)
    qed
  qed
qed

lemma inv_close:
  assumes "presence_inv s"
  shows "presence_inv (presence_close w s)"
proof (cases "clients s w")
  case None
  with assms show ?thesis by (simp add: presence_close_def)
next
  case (Some c)
  have inv: "inv_maps (clients s) (map_of (stations s))"
    using assms by (simp add: presence_inv_def)
  define S1 where "S1 = (\<lambda>g. map_option (unlisten w) (map_of (stations s) g))"
  have S1: "map_of (leave_current w c (stations s)) = S1"
    unfolding S1_def by (rule leave_current_map [OF inv Some])
  have inv1: "inv_maps ((clients s)(w := None)) S1"
    unfolding S1_def by (rule inv_maps_remove [OF inv])
  show ?thesis
  proof (cases "if role c = Broadcaster then truthy (flat_id c) else None")
    case None
    with Some inv1 show ?thesis
      by (simp add: presence_close_def presence_inv_def S1 Let_def)
  next
    case f: (Some f)
    define L where "L = (case S1 f of None \<Rightarrow> {} | Some st \<Rightarrow> set (listeners st))"
    have "inv_maps (\<lambda>v. if v \<in> L then map_option to_idle (((clients s)(w := None)) v)
                          else ((clients s)(w := None)) v) (S1(f := None))"
      unfolding L_def by (rule inv_maps_delete_station [OF inv1])
    moreover have "(case S1 f of None \<Rightarrow> clients s
                    | Some st \<Rightarrow> reset_listeners (listeners st) (clients s))(w := None) =
        (\<lambda>v. if v \<in> L then map_option to_idle (((clients s)(w := None)) v)
                          else ((clients s)(w := None)) v)"
      by (rule ext) (auto simp: L_def reset_listeners_eq split: option.splits)
    ultimately show ?thesis
      using Some f by (simp add: presence_close_def presence_inv_def S1 Let_def delete_conv')
  qed
qed

lemma inv_message:
  assumes "presence_inv s"
  shows "presence_inv (fst (presence_message N rs now w msg s))"
proof (cases "clients s w")
  case None
  with assms show ?thesis by (simp add: presence_message_def)
next
  case (Some c)
  show ?thesis
  proof (cases msg)
    case (Identify x)
    with Some inv_identify [OF assms Some] show ?thesis by (simp add: presence_message_def)
  next
    case BroadcastStart
    with Some inv_broadcast_start [OF assms Some] show ?thesis by (simp add: presence_message_def)
  next
    case BroadcastStop
    with Some inv_broadcast_stop [OF assms Some] show ?thesis by (simp add: presence_message_def)
  next
    case (BroadcastStatus a b p sp lv)
    with Some inv_broadcast_status [OF assms] show ?thesis by (simp add: presence_message_def)
  next
    case (ListenStart t)
    with Some inv_listen_start [OF assms Some] show ?thesis by (simp add: presence_message_def)
  next
    case ListenStop
    with Some inv_listen_stop [OF assms Some] show ?thesis by (simp add: presence_message_def)
  next
    case OtherFrame
    with Some assms show ?thesis by (simp add: presence_message_def)
  qed
qed

lemma reachable_inv: "reachable s \<Longrightarrow> presence_inv s"
proof (induction rule: reachable.induct)
  case reachable_init
  show ?case by (simp add: presence_inv_def inv_maps_def live_init_def)
next
  case (reachable_connect s w addr now)
  then show ?case by (simp add: inv_connect)
next
  case (reachable_message s N rs now w msg)
  then show ?case by (simp add: inv_message)
next
  case (reachable_close s w)
  then show ?case by (simp add: inv_close)
qed


subsection \<open>Example states\<close>

lemma normalizeFlatId_a1: "normalizeFlatId (Some '' a1 '') = ''A1''"
  by code_simp

lemma normalizeFlatId_A1: "normalizeFlatId (Some ''A1'') = ''A1''"
  by code_simp

lemma normalizeFlatId_B2: "normalizeFlatId (Some ''B2'') = ''B2''"
  by code_simp

lemma normalizeFlatId_None: "normalizeFlatId None = ''''"
  by code_simp

lemma on_air_reachable: "reachable on_air"
  unfolding on_air_def
  by (intro reachable.intros) (simp add: live_init_def)

lemma on_air_clients:
  "clients on_air =
     [0 \<mapsto> \<lparr>flat_id = Some ''A1'', ip = ''10.0.0.1'', role = Broadcaster,
            listeningTo = None, connectedAt = 900\<rparr>]"
  by (simp add: on_air_def presence_message_def presence_connect_def live_init_def
      broadcast_start_def truthy_def normalizeFlatId_a1 leave_current_def)

lemma on_air_stations:
  "stations on_air =
     [(''A1'', \<lparr>st_ip = ''10.0.0.1'', startedAt = 1000, listeners = [],
               audio = default_audio\<rparr>)]"
  by (simp add: on_air_def presence_message_def presence_connect_def live_init_def
      broadcast_start_def truthy_def normalizeFlatId_a1 leave_current_def)

lemma two_devices_reachable: "reachable two_devices"
  unfolding two_devices_def
  by (intro reachable.intros on_air_reachable) (simp add: on_air_clients)

subsection \<open>A second broadcast:start for a flat that is on air\<close>

text \<open>
  Claim C1. In every reachable state of the presence plane, when a client whose
  \<open>flat_id\<close> is set sends \<^verbatim>\<open>broadcast:start\<close> while a station exists for that flat id,
  the handler sends the one frame \<^verbatim>\<open>{type:"broadcast:denied", reason:"ALREADY_BROADCASTING"}\<close>
  to that client (its socket being open, as \<open>safeSend\<close> requires) and returns the state
  it was given: the registry, every station with its listener set, and the sender's
  role and \<open>listeningTo\<close> are unchanged.
\<close>

theorem broadcast_start_denied:
  assumes "reachable s" and "clients s w = Some c" and "flat_id c = Some f"
    and "map_of (stations s) f = Some st" and "readyState w = 1"
  shows "presence_message StringToNumber readyState now w BroadcastStart s =
           (s, [WsSend w (BroadcastDenied ''ALREADY_BROADCASTING'')])"
proof -
  have "presence_inv s" using assms(1) by (rule reachable_inv)
  then have "map_of (stations s) '''' = None"
    by (simp add: presence_inv_def inv_maps_no_empty)
  with assms(4) have "f \<noteq> ''''" by auto
  with assms(3) have "truthy (flat_id c) = Some f" by (simp add: truthy_Some)
  with assms show ?thesis
    by (simp add: presence_message_def broadcast_start_def safeSend_def)
qed

theorem broadcast_start_denied_witness:
  "reachable two_devices \<and>
   map_option flat_id (clients two_devices 1) = Some (Some ''A1'') \<and>
   map_of (stations two_devices) ''A1'' \<noteq> None \<and>
   sample_open 1 = 1 \<and>
   presence_message sample_StringToNumber sample_open 2000 1 BroadcastStart two_devices =
     (two_devices, [WsSend 1 (BroadcastDenied ''ALREADY_BROADCASTING'')])"
proof -
  have c: "clients two_devices 1 =
      Some \<lparr>flat_id = Some ''A1'', ip = ''10.0.0.2'', role = Idle,
            listeningTo = None, connectedAt = 1400\<rparr>"
    by (simp add: two_devices_def presence_message_def presence_connect_def normalizeFlatId_A1)
  have f: "flat_id \<lparr>flat_id = Some ''A1'', ip = ''10.0.0.2'', role = Idle,
            listeningTo = None, connectedAt = 1400\<rparr> = Some ''A1''"
    by simp
  have st: "map_of (stations two_devices) ''A1'' =
      Some \<lparr>st_ip = ''10.0.0.1'', startedAt = 1000, listeners = [], audio = default_audio\<rparr>"
    by (simp add: two_devices_def presence_message_def presence_connect_def
        normalizeFlatId_A1 on_air_stations)
  have o: "sample_open 1 = 1" by (simp add: sample_open_def)
  from broadcast_start_denied
    [where readyState = sample_open and w = 1, OF two_devices_reachable c f st o]
  show ?thesis using two_devices_reachable c st o by simp
qed

lemma with_listener_reachable: "reachable with_listener"
  unfolding with_listener_def
  by (intro reachable.intros on_air_reachable) (simp add: on_air_clients)

lemma with_listener_clients:
  "clients with_listener =
     [0 \<mapsto> \<lparr>flat_id = Some ''A1'', ip = ''10.0.0.1'', role = Broadcaster,
            listeningTo = None, connectedAt = 900\<rparr>,
      1 \<mapsto> \<lparr>flat_id = Some ''B2'', ip = ''10.0.0.2'', role = Listener,
            listeningTo = Some ''A1'', connectedAt = 1400\<rparr>]"
  by (simp add: with_listener_def presence_message_def presence_connect_def listen_start_def
      normalizeFlatId_A1 normalizeFlatId_B2 on_air_clients on_air_stations truthy_def Let_def)

lemma with_listener_stations:
  "stations with_listener =
     [(''A1'', \<lparr>st_ip = ''10.0.0.1'', startedAt = 1000, listeners = [1],
               audio = default_audio\<rparr>)]"
  by (simp add: with_listener_def presence_message_def presence_connect_def listen_start_def
      normalizeFlatId_A1 normalizeFlatId_B2 on_air_clients on_air_stations truthy_def
      set_add_def Let_def)

subsection \<open>A client with a listening target that is not a listener\<close>

text \<open>
  Claim C2 says that in every reachable state a client whose \<open>listeningTo\<close> is set has
  role listener. The \<^verbatim>\<open>broadcast:stop\<close> handler sets the sender's role to idle and
  leaves its \<open>listeningTo\<close>: after the run below (socket 0 broadcasts as A1, socket 1
  listens to A1 and then sends \<^verbatim>\<open>broadcast:stop\<close>), socket 1 has role idle and still
  has \<open>listeningTo = A1\<close>.
\<close>

theorem broadcast_stop_keeps_listeningTo:
  "reachable stop_while_listening \<and>
   clients stop_while_listening 1 =
     Some \<lparr>flat_id = Some ''B2'', ip = ''10.0.0.2'', role = Idle,
           listeningTo = Some ''A1'', connectedAt = 1400\<rparr>"
proof
  show "reachable stop_while_listening"
    unfolding stop_while_listening_def
    by (intro reachable.intros with_listener_reachable)
  show "clients stop_while_listening 1 =
     Some \<lparr>flat_id = Some ''B2'', ip = ''10.0.0.2'', role = Idle,
           listeningTo = Some ''A1'', connectedAt = 1400\<rparr>"
    by (simp add: stop_while_listening_def presence_message_def broadcast_stop_def
        with_listener_clients with_listener_stations truthy_def Let_def)
qed

subsection \<open>Close of a broadcaster's connection\<close>

text \<open>
  Claim C3. In every reachable state, when the connection of a client with role
  broadcaster and a \<open>flat_id\<close> closes: afterwards the registry has no station under that
  flat id; every other socket that was in that station's listener set has a client
  object with role idle and no \<open>listeningTo\<close>; and no client that is left has that flat
  id as its \<open>listeningTo\<close>.
\<close>

theorem close_broadcaster_cleanup:
  assumes "reachable s" and "clients s w = Some c" and "role c = Broadcaster"
    and "flat_id c = Some f"
  shows "map_of (stations (presence_close w s)) f = None \<and>
         (\<forall>st v. map_of (stations s) f = Some st \<longrightarrow> v \<in> set (listeners st) \<longrightarrow> v \<noteq> w \<longrightarrow>
            (\<exists>d. clients (presence_close w s) v = Some d \<and> role d = Idle \<and> listeningTo d = None)) \<and>
         (\<forall>v d. clients (presence_close w s) v = Some d \<longrightarrow> listeningTo d \<noteq> Some f)"
proof -
  have inv: "inv_maps (clients s) (map_of (stations s))"
    using reachable_inv [OF assms(1)] by (simp add: presence_inv_def)
  have inv': "inv_maps (clients (presence_close w s)) (map_of (stations (presence_close w s)))"
    using inv_close [OF reachable_inv [OF assms(1)]] by (simp add: presence_inv_def)
  define S1 where "S1 = (\<lambda>g. map_option (unlisten w) (map_of (stations s) g))"
  have S1: "map_of (leave_current w c (stations s)) = S1"
    unfolding S1_def by (rule leave_current_map [OF inv assms(2)])
  have gone: "map_of (stations (presence_close w s)) f = None"
  proof (cases "f = ''''")
    case True
    with assms have "stations (presence_close w s) = leave_current w c (stations s)"
      by (simp add: presence_close_def truthy_def Let_def)
    with True inv_maps_no_empty [OF inv] show ?thesis by (simp add: S1 S1_def)
  next
    case False
    with assms have "stations (presence_close w s) =
        AList.delete f (leave_current w c (stations s))"
      by (simp add: presence_close_def truthy_def Let_def)
    then show ?thesis by (simp add: delete_conv')
  qed
  have idle: "\<exists>d. clients (presence_close w s) v = Some d \<and> role d = Idle \<and> listeningTo d = None"
    if st: "map_of (stations s) f = Some st" and v: "v \<in> set (listeners st)" "v \<noteq> w" for st v
  proof -
    from st inv_maps_no_empty [OF inv] have f: "f \<noteq> ''''" by auto
    from inv_maps_member [OF inv st v(1)] obtain d0 where d0: "clients s v = Some d0" by blast
    from st have "S1 f = Some (unlisten w st)" by (simp add: S1_def)
    with assms f have "clients (presence_close w s) =
        (reset_listeners (listeners (unlisten w st)) (clients s))(w := None)"
      by (simp add: presence_close_def truthy_def Let_def S1)
    with v d0 have "clients (presence_close w s) v = Some (to_idle d0)"
      by (simp add: reset_listeners_apply)
    then show ?thesis by (simp add: to_idle_def)
  qed
  have noref: "listeningTo d \<noteq> Some f" if d: "clients (presence_close w s) v = Some d" for v d
  proof
    assume "listeningTo d = Some f"
    from inv_maps_listening [OF inv' d this] gone show False by simp
  qed
  from gone idle noref show ?thesis by blast
qed

theorem close_broadcaster_cleanup_witness:
  "reachable with_listener \<and>
   clients with_listener 0 =
     Some \<lparr>flat_id = Some ''A1'', ip = ''10.0.0.1'', role = Broadcaster,
           listeningTo = None, connectedAt = 900\<rparr> \<and>
   map_option listeners (map_of (stations with_listener) ''A1'') = Some [1] \<and>
   map_of (stations (presence_close 0 with_listener)) ''A1'' = None \<and>
   (\<exists>d. clients (presence_close 0 with_listener) 1 = Some d \<and>
        role d = Idle \<and> listeningTo d = None \<and> listeningTo d \<noteq> Some ''A1'')"
proof -
  have c: "clients with_listener 0 =
     Some \<lparr>flat_id = Some ''A1'', ip = ''10.0.0.1'', role = Broadcaster,
           listeningTo = None, connectedAt = 900\<rparr>"
    by (simp add: with_listener_clients)
  have r: "role \<lparr>flat_id = Some ''A1'', ip = ''10.0.0.1'', role = Broadcaster,
           listeningTo = None, connectedAt = 900\<rparr> = Broadcaster"
    by simp
  have f: "flat_id \<lparr>flat_id = Some ''A1'', ip = ''10.0.0.1'', role = Broadcaster,
           listeningTo = None, connectedAt = 900\<rparr> = Some ''A1''"
    by simp
  have st: "map_of (stations with_listener) ''A1'' =
      Some \<lparr>st_ip = ''10.0.0.1'', startedAt = 1000, listeners = [1], audio = default_audio\<rparr>"
    by (simp add: with_listener_stations)
  from close_broadcaster_cleanup [OF with_listener_reachable c r f] st
  show ?thesis using with_listener_reachable c by auto
qed


subsection \<open>The microphone level of a broadcast:status frame\<close>

text \<open>
  Claim C7 says that the stored \<open>micLevel\<close> always lies in [0,1], a value out of range
  being clamped. The handler stores \<^verbatim>\<open>Number(msg.micLevel || 0)\<close> and clamps nothing:
  a frame with \<^verbatim>\<open>micLevel: 5\<close> from the broadcaster of A1 leaves 5 in the station.
\<close>

theorem broadcast_status_micLevel_unclamped:
  "map_option audio
     (map_of (stations (fst (presence_message sample_StringToNumber sample_open 1100 0
        (BroadcastStatus (JBool True) (JBool False) (JBool False) (JBool True) (JNum (Fin 5)))
        on_air))) ''A1'') =
     Some \<lparr>micOn = True, sysOn = False, ptt = False, speaking = True, micLevel = Fin 5\<rparr> \<and>
   \<not> in_unit_interval (Fin 5)"
  by (simp add: presence_message_def broadcast_status_def on_air_clients on_air_stations
      truthy_def or_zero_def in_unit_interval_def)

text \<open>
  Claim C7 as amended. In every reachable state, after a \<^verbatim>\<open>broadcast:status\<close> frame
  from a client whose flat has a station, the station is still there and its stored
  \<open>micLevel\<close> is the wire value without clamping: a finite numeric \<open>micLevel\<close> is stored
  as it is, so it lies in [0,1] when the wire value does; and a falsy \<open>micLevel\<close>
  (absent, null, false, 0, NaN, the empty string) is stored as 0.
\<close>

theorem broadcast_status_micLevel:
  assumes "reachable s" and "clients s w = Some c" and "flat_id c = Some f"
    and "map_of (stations s) f = Some st"
  shows "\<exists>st'. map_of (stations (fst (presence_message StringToNumber readyState now w
                   (BroadcastStatus m_micOn m_sysOn m_ptt m_speaking m_micLevel) s))) f = Some st' \<and>
           (\<forall>x. m_micLevel = JNum (Fin x) \<longrightarrow> micLevel (audio st') = Fin x) \<and>
           (\<forall>x. m_micLevel = JNum (Fin x) \<longrightarrow> 0 \<le> x \<longrightarrow> x \<le> 1 \<longrightarrow>
                in_unit_interval (micLevel (audio st'))) \<and>
           (\<not> ToBoolean m_micLevel \<longrightarrow> micLevel (audio st') = Fin 0)"
proof -
  have "presence_inv s" using assms(1) by (rule reachable_inv)
  then have "map_of (stations s) '''' = None"
    by (simp add: presence_inv_def inv_maps_no_empty)
  with assms(4) have "f \<noteq> ''''" by auto
  with assms(3) have "truthy (flat_id c) = Some f" by (simp add: truthy_Some)
  with assms show ?thesis
    by (simp add: presence_message_def broadcast_status_def update_conv' or_zero_def
        in_unit_interval_def)
qed

theorem broadcast_status_micLevel_witness:
  "reachable on_air \<and>
   (\<exists>st'. map_of (stations (fst (presence_message sample_StringToNumber sample_open 1100 0
              (BroadcastStatus (JBool True) JNull JUndefined (JStr ''yes'') (JNum (Fin (1/2))))
              on_air))) ''A1'' = Some st' \<and>
          micLevel (audio st') = Fin (1/2) \<and> in_unit_interval (micLevel (audio st'))) \<and>
   (\<exists>st'. map_of (stations (fst (presence_message sample_StringToNumber sample_open 1100 0
              (BroadcastStatus (JBool True) JNull JUndefined (JStr ''yes'') JNull)
              on_air))) ''A1'' = Some st' \<and>
          micLevel (audio st') = Fin 0)"
proof -
  have c: "clients on_air 0 =
      Some \<lparr>flat_id = Some ''A1'', ip = ''10.0.0.1'', role = Broadcaster,
            listeningTo = None, connectedAt = 900\<rparr>"
    by (simp add: on_air_clients)
  have f: "flat_id \<lparr>flat_id = Some ''A1'', ip = ''10.0.0.1'', role = Broadcaster,
            listeningTo = None, connectedAt = 900\<rparr> = Some ''A1''"
    by simp
  have st: "map_of (stations on_air) ''A1'' =
      Some \<lparr>st_ip = ''10.0.0.1'', startedAt = 1000, listeners = [], audio = default_audio\<rparr>"
    by (simp add: on_air_stations)
  from broadcast_status_micLevel [OF on_air_reachable c f st,
      where m_micLevel = "JNum (Fin (1/2))" and StringToNumber = sample_StringToNumber
        and readyState = sample_open and now = 1100 and m_micOn = "JBool True"
        and m_sysOn = JNull and m_ptt = JUndefined and m_speaking = "JStr ''yes''"]
  obtain st' where a: "map_of (stations (fst (presence_message sample_StringToNumber sample_open 1100 0
              (BroadcastStatus (JBool True) JNull JUndefined (JStr ''yes'') (JNum (Fin (1/2))))
              on_air))) ''A1'' = Some st'"
    and b: "\<forall>x. JNum (Fin (1/2)) = JNum (Fin x) \<longrightarrow> micLevel (audio st') = Fin x"
    and u: "\<forall>x. JNum (Fin (1/2)) = JNum (Fin x) \<longrightarrow> 0 \<le> x \<longrightarrow> x \<le> 1 \<longrightarrow>
                in_unit_interval (micLevel (audio st'))"
    by blast
  from b have "micLevel (audio st') = Fin (1/2)" by blast
  moreover have "(0::real) \<le> 1/2" "(1/2::real) \<le> 1" by simp_all
  with u have "in_unit_interval (micLevel (audio st'))" by blast
  ultimately have numeric: "\<exists>st'. map_of (stations (fst (presence_message sample_StringToNumber
              sample_open 1100 0
              (BroadcastStatus (JBool True) JNull JUndefined (JStr ''yes'') (JNum (Fin (1/2))))
              on_air))) ''A1'' = Some st' \<and>
          micLevel (audio st') = Fin (1/2) \<and> in_unit_interval (micLevel (audio st'))"
    using a by blast
  have "\<not> ToBoolean JNull" by simp
  with broadcast_status_micLevel [OF on_air_reachable c f st,
      where m_micLevel = JNull and StringToNumber = sample_StringToNumber
        and readyState = sample_open and now = 1100 and m_micOn = "JBool True"
        and m_sysOn = JNull and m_ptt = JUndefined and m_speaking = "JStr ''yes''"]
  have falsy: "\<exists>st'. map_of (stations (fst (presence_message sample_StringToNumber sample_open 1100 0
              (BroadcastStatus (JBool True) JNull JUndefined (JStr ''yes'') JNull)
              on_air))) ''A1'' = Some st' \<and>
          micLevel (audio st') = Fin 0"
    by blast
  from on_air_reachable numeric falsy show ?thesis by (intro conjI)
qed


subsection \<open>The public station list\<close>

lemma mset_insert_by_id: "mset (insert_by_id cmp a xs) = add_mset a (mset xs)"
  by (induction xs) simp_all

lemma mset_sort_by_id: "mset (sort_by_id cmp xs) = mset xs"
  by (induction xs) (simp_all add: sort_by_id_def mset_insert_by_id)

lemma set_insert_by_id: "set (insert_by_id cmp a xs) = insert a (set xs)"
  by (induction xs) auto

lemma sorted_insert_by_id:
  assumes total: "\<And>a b. cmp a b \<le> 0 \<or> cmp b a \<le> 0"
    and trans: "\<And>a b c. cmp a b \<le> 0 \<Longrightarrow> cmp b c \<le> 0 \<Longrightarrow> cmp a c \<le> 0"
    and sorted: "sorted_wrt (\<lambda>x y. cmp (pub_id x) (pub_id y) \<le> 0) xs"
  shows "sorted_wrt (\<lambda>x y. cmp (pub_id x) (pub_id y) \<le> 0) (insert_by_id cmp a xs)"
  using sorted
proof (induction xs)
  case Nil
  then show ?case by simp
next
  case (Cons b bs)
  from Cons.prems have bs: "sorted_wrt (\<lambda>x y. cmp (pub_id x) (pub_id y) \<le> 0) bs"
    and b: "\<And>y. y \<in> set bs \<Longrightarrow> cmp (pub_id b) (pub_id y) \<le> 0"
    by simp_all
  show ?case
  proof (cases "cmp (pub_id a) (pub_id b) \<le> 0")
    case True
    have "cmp (pub_id a) (pub_id y) \<le> 0" if "y \<in> set bs" for y
      using trans [OF True b [OF that]] .
    with True bs b show ?thesis by simp
  next
    case False
    with total [of "pub_id a" "pub_id b"] have ba: "cmp (pub_id b) (pub_id a) \<le> 0" by simp
    have IH: "sorted_wrt (\<lambda>x y. cmp (pub_id x) (pub_id y) \<le> 0) (insert_by_id cmp a bs)"
      by (rule Cons.IH [OF bs])
    from False ba b IH show ?thesis by (simp add: set_insert_by_id)
  qed
qed

lemma sorted_sort_by_id:
  assumes total: "\<And>a b. cmp a b \<le> 0 \<or> cmp b a \<le> 0"
    and trans: "\<And>a b c. cmp a b \<le> 0 \<Longrightarrow> cmp b c \<le> 0 \<Longrightarrow> cmp a c \<le> 0"
  shows "sorted_wrt (\<lambda>x y. cmp (pub_id x) (pub_id y) \<le> 0) (sort_by_id cmp xs)"
proof (induction xs)
  case Nil
  show ?case by (simp add: sort_by_id_def)
next
  case (Cons x xs)
  have "sort_by_id cmp (x # xs) = insert_by_id cmp x (sort_by_id cmp xs)"
    by (simp add: sort_by_id_def)
  with sorted_insert_by_id [of cmp "sort_by_id cmp xs" x, OF total trans Cons.IH]
  show ?case by simp
qed

lemma sample_localeCompare_total:
  "sample_localeCompare a b \<le> 0 \<or> sample_localeCompare b a \<le> 0"
  by (induction a b rule: sample_localeCompare.induct) simp_all

lemma sample_localeCompare_trans:
  "sample_localeCompare a b \<le> 0 \<Longrightarrow> sample_localeCompare b c \<le> 0 \<Longrightarrow>
   sample_localeCompare a c \<le> 0"
proof (induction a b arbitrary: c rule: sample_localeCompare.induct)
  case 1
  then show ?case by simp
next
  case (2 y ys)
  then show ?case by (cases c) simp_all
next
  case (3 x xs)
  then show ?case by simp
next
  case (4 x xs y ys)
  show ?case
  proof (cases c)
    case Nil
    with 4 show ?thesis by simp
  next
    case (Cons z zs)
    show ?thesis
    proof (cases "(of_char x :: nat) < of_char y")
      case True
      with 4(3) Cons show ?thesis by (auto split: if_splits)
    next
      case xy: False
      with 4(2) have eq: "(of_char x :: nat) = of_char y" and
        r: "sample_localeCompare xs ys \<le> 0"
        by (simp_all split: if_splits)
      show ?thesis
      proof (cases "(of_char y :: nat) < of_char z")
        case True
        with eq Cons show ?thesis by auto
      next
        case False
        with 4(3) Cons have eq2: "(of_char y :: nat) = of_char z" and
          r2: "sample_localeCompare ys zs \<le> 0"
          by (simp_all split: if_splits)
        from xy eq have "sample_localeCompare xs zs \<le> 0"
          using "4.IH" [OF _ _ r r2] by simp
        with eq eq2 Cons show ?thesis by auto
      qed
    qed
  qed
qed

lemma public_entry_public_part:
  "public_entry e = \<lparr>pub_id = fst (public_part e), pub_name = fst (public_part e), pub_live = True,
      pub_listeners = fst (snd (public_part e)), pub_startedAt = snd (snd (public_part e))\<rparr>"
  by (simp add: public_entry_def public_part_def)

lemma map_public_entry_cong:
  assumes "map public_part sts' = map public_part sts"
  shows "map public_entry sts' = map public_entry sts"
proof -
  have "map public_entry sts' = map (\<lambda>p. \<lparr>pub_id = fst p, pub_name = fst p, pub_live = True,
      pub_listeners = fst (snd p), pub_startedAt = snd (snd p)\<rparr>) (map public_part sts')"
    by (simp add: public_entry_public_part)
  also have "\<dots> = map (\<lambda>p. \<lparr>pub_id = fst p, pub_name = fst p, pub_live = True,
      pub_listeners = fst (snd p), pub_startedAt = snd (snd p)\<rparr>) (map public_part sts)"
    using assms by simp
  also have "\<dots> = map public_entry sts"
    by (simp add: public_entry_public_part)
  finally show ?thesis .
qed

text \<open>
  Claim C8. For every station registry, the public list has exactly one element for
  each station (as multisets, the list is the image of the registry's entries); the
  element of a station has \<open>id\<close> and \<open>name\<close> equal to the station's flat id, \<open>live\<close> true,
  \<open>listeners\<close> the size of the listener set and \<open>startedAt\<close> the start time; the list is
  sorted by id ascending in the order of \<^verbatim>\<open>localeCompare\<close>, a total and transitive
  comparison; and the list depends on nothing but the keys, the listener counts and the
  start times, so neither an IP address nor the identity of a listener can show in it.
\<close>

theorem buildPublicStations_spec:
  assumes total: "\<forall>a b. localeCompare a b \<le> 0 \<or> localeCompare b a \<le> 0"
    and trans: "\<forall>a b c. localeCompare a b \<le> 0 \<longrightarrow> localeCompare b c \<le> 0 \<longrightarrow> localeCompare a c \<le> 0"
  shows "mset (buildPublicStations localeCompare sts) = mset (map public_entry sts) \<and>
         (\<forall>e \<in> set sts.
            public_entry e = \<lparr>pub_id = fst e, pub_name = fst e, pub_live = True,
              pub_listeners = length (listeners (snd e)), pub_startedAt = startedAt (snd e)\<rparr>) \<and>
         sorted_wrt (\<lambda>x y. localeCompare (pub_id x) (pub_id y) \<le> 0)
           (buildPublicStations localeCompare sts) \<and>
         (\<forall>sts'. map public_part sts' = map public_part sts \<longrightarrow>
            buildPublicStations localeCompare sts' = buildPublicStations localeCompare sts)"
proof -
  have t: "\<And>a b. localeCompare a b \<le> 0 \<or> localeCompare b a \<le> 0" using total by blast
  have tr: "\<And>a b c. localeCompare a b \<le> 0 \<Longrightarrow> localeCompare b c \<le> 0 \<Longrightarrow> localeCompare a c \<le> 0"
    using trans by blast
  have 1: "mset (buildPublicStations localeCompare sts) = mset (map public_entry sts)"
    by (simp only: buildPublicStations_def mset_sort_by_id)
  have 2: "\<forall>e \<in> set sts.
            public_entry e = \<lparr>pub_id = fst e, pub_name = fst e, pub_live = True,
              pub_listeners = length (listeners (snd e)), pub_startedAt = startedAt (snd e)\<rparr>"
    by (simp add: public_entry_def)
  have 3: "sorted_wrt (\<lambda>x y. localeCompare (pub_id x) (pub_id y) \<le> 0)
           (buildPublicStations localeCompare sts)"
    unfolding buildPublicStations_def by (rule sorted_sort_by_id [OF t tr])
  have 4: "\<forall>sts'. map public_part sts' = map public_part sts \<longrightarrow>
            buildPublicStations localeCompare sts' = buildPublicStations localeCompare sts"
  proof (intro allI impI)
    fix sts'
    assume "map public_part sts' = map public_part sts"
    then have "map public_entry sts' = map public_entry sts"
      by (rule map_public_entry_cong)
    then show "buildPublicStations localeCompare sts' = buildPublicStations localeCompare sts"
      by (simp only: buildPublicStations_def)
  qed
  from 1 2 3 4 show ?thesis by (intro conjI)
qed

lemma buildPublicStations_two_stations:
  "buildPublicStations sample_localeCompare two_stations =
     [\<lparr>pub_id = ''A1'', pub_name = ''A1'', pub_live = True, pub_listeners = 0,
       pub_startedAt = 1000\<rparr>,
      \<lparr>pub_id = ''B2'', pub_name = ''B2'', pub_live = True, pub_listeners = 2,
       pub_startedAt = 2000\<rparr>]"
  by (simp add: buildPublicStations_def sort_by_id_def public_entry_def two_stations_def)

theorem buildPublicStations_spec_witness:
  "buildPublicStations sample_localeCompare two_stations =
     [\<lparr>pub_id = ''A1'', pub_name = ''A1'', pub_live = True, pub_listeners = 0,
       pub_startedAt = 1000\<rparr>,
      \<lparr>pub_id = ''B2'', pub_name = ''B2'', pub_live = True, pub_listeners = 2,
       pub_startedAt = 2000\<rparr>] \<and>
   mset (buildPublicStations sample_localeCompare two_stations) =
     mset (map public_entry two_stations) \<and>
   sorted_wrt (\<lambda>x y. sample_localeCompare (pub_id x) (pub_id y) \<le> 0)
     (buildPublicStations sample_localeCompare two_stations) \<and>
   buildPublicStations sample_localeCompare two_stations_elsewhere =
     buildPublicStations sample_localeCompare two_stations"
proof -
  have total: "\<forall>a b. sample_localeCompare a b \<le> 0 \<or> sample_localeCompare b a \<le> 0"
    using sample_localeCompare_total by blast
  have trans: "\<forall>a b c. sample_localeCompare a b \<le> 0 \<longrightarrow> sample_localeCompare b c \<le> 0 \<longrightarrow>
      sample_localeCompare a c \<le> 0"
    using sample_localeCompare_trans by blast
  from buildPublicStations_spec [OF total trans, of two_stations]
  have "mset (buildPublicStations sample_localeCompare two_stations) =
          mset (map public_entry two_stations)"
    and "sorted_wrt (\<lambda>x y. sample_localeCompare (pub_id x) (pub_id y) \<le> 0)
          (buildPublicStations sample_localeCompare two_stations)"
    and indep: "\<forall>sts'. map public_part sts' = map public_part two_stations \<longrightarrow>
          buildPublicStations sample_localeCompare sts' =
          buildPublicStations sample_localeCompare two_stations"
    by blast+
  have "map public_part two_stations_elsewhere = map public_part two_stations"
    by (simp add: public_part_def two_stations_def two_stations_elsewhere_def)
  with indep have "buildPublicStations sample_localeCompare two_stations_elsewhere =
     buildPublicStations sample_localeCompare two_stations"
    by blast
  with buildPublicStations_two_stations \<open>mset (buildPublicStations sample_localeCompare two_stations) =
          mset (map public_entry two_stations)\<close>
    \<open>sorted_wrt (\<lambda>x y. sample_localeCompare (pub_id x) (pub_id y) \<le> 0)
          (buildPublicStations sample_localeCompare two_stations)\<close>
  show ?thesis by (intro conjI)
qed


section \<open>Properties of the signaling plane\<close>

lemma normalizeFlatId_a1_lower: "normalizeFlatId (Some ''a1'') = ''A1''"
  by code_simp

lemma signal_on_air_eq:
  "signal_on_air =
     \<lparr>signalClients =
        [(0, \<lparr>sc_id = ''00000000000000a1'', sc_flat_id = Some ''A1'', sc_ip = ''10.0.0.1'',
              sc_role = SigBroadcaster, sc_listeningTo = None\<rparr>),
         (1, \<lparr>sc_id = ''00000000000000b2'', sc_flat_id = None, sc_ip = ''10.0.0.2'',
              sc_role = Unknown, sc_listeningTo = None\<rparr>)],
      stationBroadcasterWS = [''A1'' \<mapsto> 0]\<rparr>"
  by (simp add: signal_on_air_def signal_connect_def signal_message_def signal_identify_def
      signal_init_def normalizeFlatId_a1_lower Let_def)

text \<open>
  Claim C6. On the signaling channel, for an identify frame with role broadcaster from
  a connected socket (open, as \<open>safeSend\<close> requires for the reply): when the index has no
  entry for the canonical flat id, the index afterwards maps that flat id to this
  socket; otherwise the handler sends \<^verbatim>\<open>{type:"broadcast:denied",
  reason:"ALREADY_BROADCASTING"}\<close> to the socket, closes it with code 1008, and the
  index still maps the flat id to the connection registered before.
\<close>

theorem signal_identify_broadcaster:
  assumes "map_of (signalClients s) w = Some sc" and "readyState w = 1"
  shows "case stationBroadcasterWS s (normalizeFlatId m_flat_id) of
           None \<Rightarrow>
             stationBroadcasterWS
               (fst (signal_message readyState w (SigIdentify m_flat_id (Some ''broadcaster'')) sts s))
               (normalizeFlatId m_flat_id) = Some w
         | Some original \<Rightarrow>
             snd (signal_message readyState w (SigIdentify m_flat_id (Some ''broadcaster'')) sts s) =
               [WsSend w (BroadcastDenied ''ALREADY_BROADCASTING''),
                WsClose w 1008 ''already broadcasting''] \<and>
             stationBroadcasterWS
               (fst (signal_message readyState w (SigIdentify m_flat_id (Some ''broadcaster'')) sts s))
               (normalizeFlatId m_flat_id) = Some original"
  using assms
  by (simp add: signal_message_def signal_identify_def safeSend_def Let_def split: option.splits)

theorem signal_identify_broadcaster_witness:
  "map_of (signalClients signal_on_air) 1 \<noteq> None \<and> sample_open 1 = 1 \<and>
   stationBroadcasterWS signal_on_air (normalizeFlatId (Some ''A1'')) = Some 0 \<and>
   snd (signal_message sample_open 1 (SigIdentify (Some ''A1'') (Some ''broadcaster'')) []
          signal_on_air) =
     [WsSend 1 (BroadcastDenied ''ALREADY_BROADCASTING''), WsClose 1 1008 ''already broadcasting''] \<and>
   stationBroadcasterWS
     (fst (signal_message sample_open 1 (SigIdentify (Some ''A1'') (Some ''broadcaster'')) []
        signal_on_air)) (normalizeFlatId (Some ''A1'')) = Some 0 \<and>
   stationBroadcasterWS signal_on_air (normalizeFlatId (Some ''B2'')) = None \<and>
   stationBroadcasterWS
     (fst (signal_message sample_open 1 (SigIdentify (Some ''B2'') (Some ''broadcaster'')) []
        signal_on_air)) (normalizeFlatId (Some ''B2'')) = Some 1"
proof -
  have c: "map_of (signalClients signal_on_air) 1 =
      Some \<lparr>sc_id = ''00000000000000b2'', sc_flat_id = None, sc_ip = ''10.0.0.2'',
              sc_role = Unknown, sc_listeningTo = None\<rparr>"
    by (simp add: signal_on_air_eq)
  have o: "sample_open 1 = 1" by (simp add: sample_open_def)
  have a1: "stationBroadcasterWS signal_on_air (normalizeFlatId (Some ''A1'')) = Some 0"
    by (simp add: signal_on_air_eq normalizeFlatId_A1)
  have b2: "stationBroadcasterWS signal_on_air (normalizeFlatId (Some ''B2'')) = None"
    by (simp add: signal_on_air_eq normalizeFlatId_B2)
  from signal_identify_broadcaster [where readyState = sample_open and w = 1, OF c o,
      of "Some ''A1''" "[]"] a1
  have d: "snd (signal_message sample_open 1 (SigIdentify (Some ''A1'') (Some ''broadcaster'')) []
          signal_on_air) =
     [WsSend 1 (BroadcastDenied ''ALREADY_BROADCASTING''), WsClose 1 1008 ''already broadcasting''] \<and>
   stationBroadcasterWS
     (fst (signal_message sample_open 1 (SigIdentify (Some ''A1'') (Some ''broadcaster'')) []
        signal_on_air)) (normalizeFlatId (Some ''A1'')) = Some 0"
    by simp
  from signal_identify_broadcaster [where readyState = sample_open and w = 1, OF c o,
      of "Some ''B2''" "[]"] b2
  have r: "stationBroadcasterWS
     (fst (signal_message sample_open 1 (SigIdentify (Some ''B2'') (Some ''broadcaster'')) []
        signal_on_air)) (normalizeFlatId (Some ''B2'')) = Some 1"
    by simp
  from c o a1 b2 d r show ?thesis by simp
qed

lemma nameless_broadcaster_eq:
  "nameless_broadcaster =
     \<lparr>signalClients =
        [(0, \<lparr>sc_id = ''00000000000000a1'', sc_flat_id = Some '''', sc_ip = ''10.0.0.1'',
              sc_role = SigBroadcaster, sc_listeningTo = None\<rparr>),
         (1, \<lparr>sc_id = ''00000000000000b2'', sc_flat_id = None, sc_ip = ''10.0.0.2'',
              sc_role = Unknown, sc_listeningTo = None\<rparr>)],
      stationBroadcasterWS = ['''' \<mapsto> 0]\<rparr>"
  by (simp add: nameless_broadcaster_def signal_connect_def signal_message_def
      signal_identify_def signal_init_def normalizeFlatId_None Let_def)

text \<open>
  Claim C10 says that after any \<^verbatim>\<open>listen:join\<close> a later \<^verbatim>\<open>listen:leave\<close> of that client
  sends \<^verbatim>\<open>listener:leave\<close> to the broadcaster connection registered for the target. When
  the target is absent or blank its canonical form is the empty string, which
  \<^verbatim>\<open>if (!sc.listeningTo) return\<close> takes for no target: the leave sends nothing,
  although a broadcaster is registered under the empty flat id and its socket is open.
\<close>

theorem listen_leave_empty_target_silent:
  "stationBroadcasterWS nameless_broadcaster (normalizeFlatId None) = Some 0 \<and>
   sample_open 0 = 1 \<and>
   snd (signal_message sample_open 1 (ListenJoin None) [] nameless_broadcaster) =
     [WsSend 1 (ListenError ''STATION_OFFLINE'')] \<and>
   map_option sc_listeningTo
     (map_of (signalClients
        (fst (signal_message sample_open 1 (ListenJoin None) [] nameless_broadcaster))) 1) =
     Some (Some (normalizeFlatId None)) \<and>
   snd (signal_message sample_open 1 ListenLeave []
          (fst (signal_message sample_open 1 (ListenJoin None) [] nameless_broadcaster))) = []"
  by (simp add: nameless_broadcaster_eq signal_message_def listen_join_def listen_leave_def
      normalizeFlatId_None safeSend_def sample_open_def truthy_def Let_def)

text \<open>
  Claim C10 as amended. Every \<^verbatim>\<open>listen:join\<close> frame of a connected socket sets the
  client's role to listener and its \<open>listeningTo\<close> to the canonical target before any
  validation, also when the reply is \<^verbatim>\<open>listen:error\<close> with STATION_OFFLINE or
  BROADCASTER_SIGNAL_NOT_READY; so, when the canonical target is not empty, a
  \<^verbatim>\<open>listen:leave\<close> that follows sends \<^verbatim>\<open>listener:leave\<close> with the client's id to the
  broadcaster connection registered for that target (its socket being open), whether
  or not the join succeeded.
\<close>

theorem listen_join_then_leave:
  assumes "map_of (signalClients s) w = Some sc"
  shows "map_of (signalClients (fst (signal_message readyState w (ListenJoin m_targetFlat) sts s))) w =
           Some (sc\<lparr>sc_role := SigListener, sc_listeningTo := Some (normalizeFlatId m_targetFlat)\<rparr>) \<and>
         (readyState w = 1 \<longrightarrow> map_of sts (normalizeFlatId m_targetFlat) = None \<longrightarrow>
            snd (signal_message readyState w (ListenJoin m_targetFlat) sts s) =
              [WsSend w (ListenError ''STATION_OFFLINE'')]) \<and>
         (readyState w = 1 \<longrightarrow> map_of sts (normalizeFlatId m_targetFlat) \<noteq> None \<longrightarrow>
            stationBroadcasterWS s (normalizeFlatId m_targetFlat) = None \<longrightarrow>
            snd (signal_message readyState w (ListenJoin m_targetFlat) sts s) =
              [WsSend w (ListenError ''BROADCASTER_SIGNAL_NOT_READY'')]) \<and>
         (\<forall>b. normalizeFlatId m_targetFlat \<noteq> '''' \<longrightarrow>
              stationBroadcasterWS
                (fst (signal_message readyState w (ListenJoin m_targetFlat) sts s))
                (normalizeFlatId m_targetFlat) = Some b \<longrightarrow>
              readyState b = 1 \<longrightarrow>
              snd (signal_message readyState w ListenLeave sts'
                     (fst (signal_message readyState w (ListenJoin m_targetFlat) sts s))) =
                [WsSend b (ListenerLeave (sc_id sc))])"
proof -
  define t where "t = normalizeFlatId m_targetFlat"
  define s1 where "s1 = s\<lparr>signalClients := AList.update w
      (sc\<lparr>sc_role := SigListener, sc_listeningTo := Some t\<rparr>) (signalClients s)\<rparr>"
  have s1: "fst (signal_message readyState w (ListenJoin m_targetFlat) sts s) = s1"
    using assms
    by (simp add: signal_message_def listen_join_def Let_def s1_def t_def split: option.splits)
  have c1: "map_of (signalClients s1) w = Some (sc\<lparr>sc_role := SigListener, sc_listeningTo := Some t\<rparr>)"
    by (simp add: s1_def update_conv')
  have e1: "snd (signal_message readyState w (ListenJoin m_targetFlat) sts s) =
              [WsSend w (ListenError ''STATION_OFFLINE'')]"
    if "readyState w = 1" "map_of sts t = None"
    using assms that
    by (simp add: signal_message_def listen_join_def Let_def t_def safeSend_def)
  have e2: "snd (signal_message readyState w (ListenJoin m_targetFlat) sts s) =
              [WsSend w (ListenError ''BROADCASTER_SIGNAL_NOT_READY'')]"
    if "readyState w = 1" "map_of sts t \<noteq> None" "stationBroadcasterWS s t = None"
    using assms that
    by (auto simp: signal_message_def listen_join_def Let_def t_def safeSend_def)
  have l: "snd (signal_message readyState w ListenLeave sts' s1) = [WsSend b (ListenerLeave (sc_id sc))]"
    if "t \<noteq> ''''" "stationBroadcasterWS s1 t = Some b" "readyState b = 1" for b
    using that c1
    by (simp add: signal_message_def listen_leave_def truthy_def safeSend_def)
  from c1 e1 e2 l show ?thesis
    unfolding s1 t_def [symmetric] by blast
qed

theorem listen_join_then_leave_witness:
  "map_of (signalClients signal_on_air) 1 \<noteq> None \<and>
   normalizeFlatId (Some ''a1'') \<noteq> '''' \<and>
   sample_open 0 = 1 \<and> sample_open 1 = 1 \<and>
   snd (signal_message sample_open 1 (ListenJoin (Some ''a1'')) [] signal_on_air) =
     [WsSend 1 (ListenError ''STATION_OFFLINE'')] \<and>
   stationBroadcasterWS
     (fst (signal_message sample_open 1 (ListenJoin (Some ''a1'')) [] signal_on_air))
     (normalizeFlatId (Some ''a1'')) = Some 0 \<and>
   snd (signal_message sample_open 1 ListenLeave []
          (fst (signal_message sample_open 1 (ListenJoin (Some ''a1'')) [] signal_on_air))) =
     [WsSend 0 (ListenerLeave ''00000000000000b2'')] \<and>
   snd (signal_message sample_open 1 (ListenJoin (Some ''B2'')) two_stations signal_on_air) =
     [WsSend 1 (ListenError ''BROADCASTER_SIGNAL_NOT_READY'')]"
proof -
  have c: "map_of (signalClients signal_on_air) 1 =
      Some \<lparr>sc_id = ''00000000000000b2'', sc_flat_id = None, sc_ip = ''10.0.0.2'',
              sc_role = Unknown, sc_listeningTo = None\<rparr>"
    by (simp add: signal_on_air_eq)
  have n: "normalizeFlatId (Some ''a1'') \<noteq> ''''"
    by (simp add: normalizeFlatId_a1_lower)
  have o: "sample_open 0 = 1" "sample_open 1 = 1" by (simp_all add: sample_open_def)
  have off: "map_of ([] :: (string \<times> station) list) (normalizeFlatId (Some ''a1'')) = None"
    by simp
  have b: "stationBroadcasterWS
     (fst (signal_message sample_open 1 (ListenJoin (Some ''a1'')) [] signal_on_air))
     (normalizeFlatId (Some ''a1'')) = Some 0"
    using c by (simp add: signal_message_def listen_join_def Let_def signal_on_air_eq
        normalizeFlatId_a1_lower)
  note inst = listen_join_then_leave [where readyState = sample_open and w = 1
      and m_targetFlat = "Some ''a1''" and sts = "[]" and sts' = "[]", OF c]
  from inst o(2) off
  have j: "snd (signal_message sample_open 1 (ListenJoin (Some ''a1'')) [] signal_on_air) =
     [WsSend 1 (ListenError ''STATION_OFFLINE'')]"
    by blast
  from inst n b o(1)
  have l: "snd (signal_message sample_open 1 ListenLeave []
          (fst (signal_message sample_open 1 (ListenJoin (Some ''a1'')) [] signal_on_air))) =
     [WsSend 0 (ListenerLeave (sc_id \<lparr>sc_id = ''00000000000000b2'', sc_flat_id = None,
        sc_ip = ''10.0.0.2'', sc_role = Unknown, sc_listeningTo = None\<rparr>))]"
    by blast
  have on: "map_of two_stations (normalizeFlatId (Some ''B2'')) \<noteq> None"
    by (simp add: two_stations_def normalizeFlatId_B2)
  have nb: "stationBroadcasterWS signal_on_air (normalizeFlatId (Some ''B2'')) = None"
    by (simp add: signal_on_air_eq normalizeFlatId_B2)
  from listen_join_then_leave [where readyState = sample_open and w = 1
      and m_targetFlat = "Some ''B2''" and sts = two_stations and sts' = "[]", OF c] o(2) on nb
  have nr: "snd (signal_message sample_open 1 (ListenJoin (Some ''B2'')) two_stations
      signal_on_air) = [WsSend 1 (ListenError ''BROADCASTER_SIGNAL_NOT_READY'')]"
    by blast
  from c n o j b l nr show ?thesis by simp
qed


section \<open>Properties of the identity store\<close>

lemma order_desc_set: "set (order_desc k rows) = set rows"
  by (simp add: order_desc_def)

lemma order_desc_first:
  assumes "order_desc k rows = e # rest"
  shows "e \<in> set rows \<and> (\<forall>r \<in> set rows. k r \<le> k e)"
proof -
  have "sorted (map (\<lambda>r. - k r) (order_desc k rows))"
    by (simp add: order_desc_def)
  with assms have "\<forall>r \<in> set rest. - k e \<le> - k r" by simp
  moreover have "set rows = insert e (set rest)"
    using order_desc_set [of k rows] assms by simp
  ultimately show ?thesis by auto
qed

lemma pending_request_Nil:
  "pending_request fid d = [] \<longleftrightarrow>
     \<not> (\<exists>r \<in> set (flat_requests d). req_flat_id r = fid \<and> req_status r = ''PENDING'')"
proof -
  have "pending_request fid d = [] \<longleftrightarrow>
      order_desc req_created_at
        (filter (\<lambda>r. req_flat_id r = fid \<and> req_status r = ''PENDING'') (flat_requests d)) = []"
    by (simp add: pending_request_def)
  also have "\<dots> \<longleftrightarrow> set (order_desc req_created_at
        (filter (\<lambda>r. req_flat_id r = fid \<and> req_status r = ''PENDING'') (flat_requests d))) = {}"
    by simp
  also have "\<dots> \<longleftrightarrow>
      \<not> (\<exists>r \<in> set (flat_requests d). req_flat_id r = fid \<and> req_status r = ''PENDING'')"
    unfolding order_desc_set by auto
  finally show ?thesis .
qed

lemma pending_request_Cons:
  assumes "pending_request fid d = e # rest"
  shows "e \<in> set (flat_requests d) \<and> req_flat_id e = fid \<and> req_status e = ''PENDING'' \<and>
         (\<forall>r \<in> set (flat_requests d). req_flat_id r = fid \<and> req_status r = ''PENDING'' \<longrightarrow>
            req_created_at r \<le> req_created_at e)"
proof -
  define ys where "ys = order_desc req_created_at
        (filter (\<lambda>r. req_flat_id r = fid \<and> req_status r = ''PENDING'') (flat_requests d))"
  from assms have "take 1 ys = e # rest" by (simp add: pending_request_def ys_def)
  then obtain rest' where "ys = e # rest'" by (cases ys) simp_all
  from order_desc_first [OF this [unfolded ys_def]] show ?thesis by auto
qed

text \<open>
  Claim C9. \<open>createAccessRequest\<close> returns \<^verbatim>\<open>MISSING_FIELDS\<close> and leaves the database as it
  is when the canonical flat id or the trimmed name is empty. Otherwise, when a PENDING
  request exists for the flat id, it returns the id and status of the most recent one
  with \<open>reused = true\<close> and leaves the database as it is; and when none exists, it appends
  exactly one row, with the next id of the sequence, status PENDING, an empty note and
  \<open>created_at = updated_at = now\<close>, and returns that id with \<open>reused = false\<close>.
\<close>

theorem createAccessRequest_spec:
  "(normalizeFlatId m_flat_id = '''' \<or> trim (or_empty m_name) = '''' \<longrightarrow>
      createAccessRequest now m_flat_id m_name d = (RequestError ''MISSING_FIELDS'', d)) \<and>
   (normalizeFlatId m_flat_id \<noteq> '''' \<and> trim (or_empty m_name) \<noteq> '''' \<longrightarrow>
    (\<exists>r \<in> set (flat_requests d).
        req_flat_id r = normalizeFlatId m_flat_id \<and> req_status r = ''PENDING'') \<longrightarrow>
    (\<exists>e \<in> set (flat_requests d).
        req_flat_id e = normalizeFlatId m_flat_id \<and> req_status e = ''PENDING'' \<and>
        (\<forall>r \<in> set (flat_requests d).
            req_flat_id r = normalizeFlatId m_flat_id \<and> req_status r = ''PENDING'' \<longrightarrow>
            req_created_at r \<le> req_created_at e) \<and>
        createAccessRequest now m_flat_id m_name d =
          (RequestOk (req_id e) (req_status e) True, d))) \<and>
   (normalizeFlatId m_flat_id \<noteq> '''' \<and> trim (or_empty m_name) \<noteq> '''' \<longrightarrow>
    \<not> (\<exists>r \<in> set (flat_requests d).
        req_flat_id r = normalizeFlatId m_flat_id \<and> req_status r = ''PENDING'') \<longrightarrow>
    createAccessRequest now m_flat_id m_name d =
      (RequestOk (flat_requests_seq d + 1) ''PENDING'' False,
       d\<lparr>flat_requests := flat_requests d @
            [\<lparr>req_id = flat_requests_seq d + 1, req_flat_id = normalizeFlatId m_flat_id,
              req_name = trim (or_empty m_name), req_note = '''', req_status = ''PENDING'',
              req_created_at = now, req_updated_at = now\<rparr>],
         flat_requests_seq := flat_requests_seq d + 1\<rparr>))"
proof (intro conjI impI)
  assume "normalizeFlatId m_flat_id = '''' \<or> trim (or_empty m_name) = ''''"
  then show "createAccessRequest now m_flat_id m_name d = (RequestError ''MISSING_FIELDS'', d)"
    by (auto simp: createAccessRequest_def Let_def)
next
  assume ok: "normalizeFlatId m_flat_id \<noteq> '''' \<and> trim (or_empty m_name) \<noteq> ''''"
    and ex: "\<exists>r \<in> set (flat_requests d).
        req_flat_id r = normalizeFlatId m_flat_id \<and> req_status r = ''PENDING''"
  from ex have "pending_request (normalizeFlatId m_flat_id) d \<noteq> []"
    by (simp add: pending_request_Nil)
  then obtain e rest where e: "pending_request (normalizeFlatId m_flat_id) d = e # rest"
    by (cases "pending_request (normalizeFlatId m_flat_id) d") auto
  from ok e have "createAccessRequest now m_flat_id m_name d =
          (RequestOk (req_id e) (req_status e) True, d)"
    by (simp add: createAccessRequest_def Let_def)
  with pending_request_Cons [OF e]
  show "\<exists>e \<in> set (flat_requests d).
        req_flat_id e = normalizeFlatId m_flat_id \<and> req_status e = ''PENDING'' \<and>
        (\<forall>r \<in> set (flat_requests d).
            req_flat_id r = normalizeFlatId m_flat_id \<and> req_status r = ''PENDING'' \<longrightarrow>
            req_created_at r \<le> req_created_at e) \<and>
        createAccessRequest now m_flat_id m_name d =
          (RequestOk (req_id e) (req_status e) True, d)"
    by blast
next
  assume ok: "normalizeFlatId m_flat_id \<noteq> '''' \<and> trim (or_empty m_name) \<noteq> ''''"
    and nex: "\<not> (\<exists>r \<in> set (flat_requests d).
        req_flat_id r = normalizeFlatId m_flat_id \<and> req_status r = ''PENDING'')"
  from nex have "pending_request (normalizeFlatId m_flat_id) d = []"
    by (simp add: pending_request_Nil)
  with ok show "createAccessRequest now m_flat_id m_name d =
      (RequestOk (flat_requests_seq d + 1) ''PENDING'' False,
       d\<lparr>flat_requests := flat_requests d @
            [\<lparr>req_id = flat_requests_seq d + 1, req_flat_id = normalizeFlatId m_flat_id,
              req_name = trim (or_empty m_name), req_note = '''', req_status = ''PENDING'',
              req_created_at = now, req_updated_at = now\<rparr>],
         flat_requests_seq := flat_requests_seq d + 1\<rparr>)"
    by (simp add: createAccessRequest_def Let_def)
qed

lemma trim_Ava: "trim (or_empty (Some ''Ava'')) = ''Ava''"
  by code_simp

lemma trim_blank: "trim (or_empty (Some ''  '')) = ''''"
  by code_simp

theorem createAccessRequest_spec_witness:
  "createAccessRequest 1000 (Some ''a1'') (Some ''Ava'') empty_db =
     (RequestOk 1 ''PENDING'' False, one_request) \<and>
   createAccessRequest 2000 (Some ''a1'') (Some ''Ava'') one_request =
     (RequestOk 1 ''PENDING'' True, one_request) \<and>
   createAccessRequest 3000 (Some ''a1'') (Some ''  '') one_request =
     (RequestError ''MISSING_FIELDS'', one_request)"
proof (intro conjI)
  have "\<not> (\<exists>r \<in> set (flat_requests empty_db).
        req_flat_id r = normalizeFlatId (Some ''a1'') \<and> req_status r = ''PENDING'')"
    by (simp add: empty_db_def)
  with createAccessRequest_spec [where m_flat_id = "Some ''a1''" and m_name = "Some ''Ava''"
      and now = 1000 and d = empty_db]
  show "createAccessRequest 1000 (Some ''a1'') (Some ''Ava'') empty_db =
     (RequestOk 1 ''PENDING'' False, one_request)"
    by (simp add: normalizeFlatId_a1_lower trim_Ava empty_db_def one_request_def)
next
  have "\<exists>r \<in> set (flat_requests one_request).
        req_flat_id r = normalizeFlatId (Some ''a1'') \<and> req_status r = ''PENDING''"
    by (simp add: one_request_def normalizeFlatId_a1_lower)
  with createAccessRequest_spec [where m_flat_id = "Some ''a1''" and m_name = "Some ''Ava''"
      and now = 2000 and d = one_request]
  show "createAccessRequest 2000 (Some ''a1'') (Some ''Ava'') one_request =
     (RequestOk 1 ''PENDING'' True, one_request)"
    by (simp add: normalizeFlatId_a1_lower trim_Ava one_request_def)
next
  from createAccessRequest_spec [where m_flat_id = "Some ''a1''" and m_name = "Some ''  ''"
      and now = 3000 and d = one_request]
  show "createAccessRequest 3000 (Some ''a1'') (Some ''  '') one_request =
     (RequestError ''MISSING_FIELDS'', one_request)"
    by (simp add: trim_blank)
qed



subsection \<open>loginFlat\<close>

text \<open>
  Claim C5 says that \<^verbatim>\<open>PASSWORD_REQUIRED\<close> comes before \<^verbatim>\<open>INVALID_CREDENTIALS\<close>: a flat
  that can log in and has a password stored, a well-formed PIN and no password would
  give \<^verbatim>\<open>PASSWORD_REQUIRED\<close> whether or not the PIN matches. \<open>loginFlat\<close> compares the
  PIN first: with the wrong PIN 9999 and no password the answer is
  \<^verbatim>\<open>INVALID_CREDENTIALS\<close>.
\<close>

theorem loginFlat_wrong_pin_before_password:
  "select_flat (normalizeFlatId (Some ''A1'')) five_flats = Some (sample_flat ''A1'') \<and>
   flat_status (sample_flat ''A1'') = ''ACTIVE'' \<and>
   banned_until 5000 (sample_flat ''A1'') = None \<and>
   \<not> requires_admin_revoke (sample_flat ''A1'') \<and>
   truthy (pin_hash (sample_flat ''A1'')) = Some (sample_hash ''5678'') \<and>
   truthy (password_hash (sample_flat ''A1'')) = Some (sample_hash ''hunter2'') \<and>
   is_pin4 ''9999'' \<and>
   loginFlat sample_compare 5000 (Some ''A1'') (Some ''9999'') None five_flats =
     (LoginError ''INVALID_CREDENTIALS'', five_flats)"
  by (simp add: loginFlat_def select_flat_def five_flats_def sample_flat_def banned_until_def
      truthy_def sample_hash_def sample_compare_def is_pin4_def is_digit_def js_String_def
      normalizeFlatId_A1 Let_def)

text \<open>
  Claim C5 as amended. \<open>loginFlat\<close> makes its checks in the order \<^verbatim>\<open>FLAT_NOT_FOUND\<close>,
  \<^verbatim>\<open>FLAT_DISABLED\<close>, \<^verbatim>\<open>BANNED\<close> (with \<open>ban_until\<close>), \<^verbatim>\<open>ADMIN_REVOKE_REQUIRED\<close>,
  \<^verbatim>\<open>PIN_NOT_SET\<close>, \<^verbatim>\<open>INVALID_PIN\<close>, \<^verbatim>\<open>INVALID_CREDENTIALS\<close> for a PIN that does not
  match, \<^verbatim>\<open>PASSWORD_REQUIRED\<close>, \<^verbatim>\<open>INVALID_CREDENTIALS\<close> for a password that does not
  match: each answer is given when the checks before it pass, whatever the later ones
  would say, and the database is left as it is. In particular, for a flat row that
  exists, is ACTIVE, is not banned, needs no admin revoke and has \<open>pin_hash\<close> and
  \<open>password_hash\<close> set, a call with a well-formed PIN and no password gives
  \<^verbatim>\<open>PASSWORD_REQUIRED\<close> when the PIN matches \<open>pin_hash\<close> and \<^verbatim>\<open>INVALID_CREDENTIALS\<close> when
  it does not.
\<close>

theorem loginFlat_order:
  "(select_flat (normalizeFlatId m_flat_id) d = None \<longrightarrow>
      loginFlat compare now m_flat_id m_pin m_password d = (LoginError ''FLAT_NOT_FOUND'', d)) \<and>
   (\<forall>fl. select_flat (normalizeFlatId m_flat_id) d = Some fl \<longrightarrow>
      (flat_status fl \<noteq> ''ACTIVE'' \<longrightarrow>
         loginFlat compare now m_flat_id m_pin m_password d = (LoginError ''FLAT_DISABLED'', d)) \<and>
      (\<forall>b. flat_status fl = ''ACTIVE'' \<and> banned_until now fl = Some b \<longrightarrow>
         loginFlat compare now m_flat_id m_pin m_password d = (Banned b, d)) \<and>
      (flat_status fl = ''ACTIVE'' \<and> banned_until now fl = None \<and> requires_admin_revoke fl \<longrightarrow>
         loginFlat compare now m_flat_id m_pin m_password d =
           (LoginError ''ADMIN_REVOKE_REQUIRED'', d)) \<and>
      (flat_status fl = ''ACTIVE'' \<and> banned_until now fl = None \<and> \<not> requires_admin_revoke fl \<and>
       truthy (pin_hash fl) = None \<longrightarrow>
         loginFlat compare now m_flat_id m_pin m_password d = (LoginError ''PIN_NOT_SET'', d)) \<and>
      (\<forall>ph. flat_status fl = ''ACTIVE'' \<and> banned_until now fl = None \<and>
            \<not> requires_admin_revoke fl \<and> truthy (pin_hash fl) = Some ph \<longrightarrow>
         (\<not> is_pin4 (js_String m_pin) \<longrightarrow>
            loginFlat compare now m_flat_id m_pin m_password d = (LoginError ''INVALID_PIN'', d)) \<and>
         (is_pin4 (js_String m_pin) \<and> \<not> compare (js_String m_pin) ph \<longrightarrow>
            loginFlat compare now m_flat_id m_pin m_password d =
              (LoginError ''INVALID_CREDENTIALS'', d)) \<and>
         (\<forall>pwh. is_pin4 (js_String m_pin) \<and> compare (js_String m_pin) ph \<and>
                truthy (password_hash fl) = Some pwh \<longrightarrow>
            (truthy m_password = None \<longrightarrow>
               loginFlat compare now m_flat_id m_pin m_password d =
                 (LoginError ''PASSWORD_REQUIRED'', d)) \<and>
            (\<forall>p. truthy m_password = Some p \<and> \<not> compare p pwh \<longrightarrow>
               loginFlat compare now m_flat_id m_pin m_password d =
                 (LoginError ''INVALID_CREDENTIALS'', d)))))"
  by (simp add: loginFlat_def Let_def)

lemma normalizeFlatId_C3: "normalizeFlatId (Some ''C3'') = ''C3''"
  by code_simp

lemma normalizeFlatId_D4: "normalizeFlatId (Some ''D4'') = ''D4''"
  by code_simp

lemma normalizeFlatId_E5: "normalizeFlatId (Some ''E5'') = ''E5''"
  by code_simp

lemma normalizeFlatId_Z9: "normalizeFlatId (Some ''Z9'') = ''Z9''"
  by code_simp

lemmas login_eval =
  select_flat_def five_flats_def sample_flat_def banned_until_def truthy_def sample_hash_def
  sample_compare_def is_pin4_def is_digit_def js_String_def

theorem loginFlat_order_witness:
  "loginFlat sample_compare 5000 (Some ''Z9'') (Some ''5678'') None five_flats =
     (LoginError ''FLAT_NOT_FOUND'', five_flats) \<and>
   loginFlat sample_compare 5000 (Some ''B2'') (Some ''5678'') None five_flats =
     (LoginError ''FLAT_DISABLED'', five_flats) \<and>
   loginFlat sample_compare 5000 (Some ''C3'') (Some ''5678'') None five_flats =
     (Banned 9000, five_flats) \<and>
   loginFlat sample_compare 5000 (Some ''D4'') (Some ''5678'') None five_flats =
     (LoginError ''ADMIN_REVOKE_REQUIRED'', five_flats) \<and>
   loginFlat sample_compare 5000 (Some ''E5'') (Some ''5678'') None five_flats =
     (LoginError ''PIN_NOT_SET'', five_flats) \<and>
   loginFlat sample_compare 5000 (Some ''A1'') (Some ''56a8'') None five_flats =
     (LoginError ''INVALID_PIN'', five_flats) \<and>
   loginFlat sample_compare 5000 (Some ''A1'') (Some ''9999'') None five_flats =
     (LoginError ''INVALID_CREDENTIALS'', five_flats) \<and>
   loginFlat sample_compare 5000 (Some ''A1'') (Some ''5678'') None five_flats =
     (LoginError ''PASSWORD_REQUIRED'', five_flats) \<and>
   loginFlat sample_compare 5000 (Some ''A1'') (Some ''5678'') (Some ''letmein'') five_flats =
     (LoginError ''INVALID_CREDENTIALS'', five_flats)"
proof (intro conjI)
  show "loginFlat sample_compare 5000 (Some ''Z9'') (Some ''5678'') None five_flats =
     (LoginError ''FLAT_NOT_FOUND'', five_flats)"
    using loginFlat_order [where compare = sample_compare and now = 5000
        and m_flat_id = "Some ''Z9''" and m_pin = "Some ''5678''" and m_password = None
        and d = five_flats]
    by (simp add: login_eval normalizeFlatId_Z9)
  show "loginFlat sample_compare 5000 (Some ''B2'') (Some ''5678'') None five_flats =
     (LoginError ''FLAT_DISABLED'', five_flats)"
    using loginFlat_order [where compare = sample_compare and now = 5000
        and m_flat_id = "Some ''B2''" and m_pin = "Some ''5678''" and m_password = None
        and d = five_flats]
    by (simp add: login_eval normalizeFlatId_B2)
  show "loginFlat sample_compare 5000 (Some ''C3'') (Some ''5678'') None five_flats =
     (Banned 9000, five_flats)"
    using loginFlat_order [where compare = sample_compare and now = 5000
        and m_flat_id = "Some ''C3''" and m_pin = "Some ''5678''" and m_password = None
        and d = five_flats]
    by (simp add: login_eval normalizeFlatId_C3)
  show "loginFlat sample_compare 5000 (Some ''D4'') (Some ''5678'') None five_flats =
     (LoginError ''ADMIN_REVOKE_REQUIRED'', five_flats)"
    using loginFlat_order [where compare = sample_compare and now = 5000
        and m_flat_id = "Some ''D4''" and m_pin = "Some ''5678''" and m_password = None
        and d = five_flats]
    by (simp add: login_eval normalizeFlatId_D4)
  show "loginFlat sample_compare 5000 (Some ''E5'') (Some ''5678'') None five_flats =
     (LoginError ''PIN_NOT_SET'', five_flats)"
    using loginFlat_order [where compare = sample_compare and now = 5000
        and m_flat_id = "Some ''E5''" and m_pin = "Some ''5678''" and m_password = None
        and d = five_flats]
    by (simp add: login_eval normalizeFlatId_E5)
  show "loginFlat sample_compare 5000 (Some ''A1'') (Some ''56a8'') None five_flats =
     (LoginError ''INVALID_PIN'', five_flats)"
    using loginFlat_order [where compare = sample_compare and now = 5000
        and m_flat_id = "Some ''A1''" and m_pin = "Some ''56a8''" and m_password = None
        and d = five_flats]
    by (simp add: login_eval normalizeFlatId_A1)
  show "loginFlat sample_compare 5000 (Some ''A1'') (Some ''9999'') None five_flats =
     (LoginError ''INVALID_CREDENTIALS'', five_flats)"
    using loginFlat_order [where compare = sample_compare and now = 5000
        and m_flat_id = "Some ''A1''" and m_pin = "Some ''9999''" and m_password = None
        and d = five_flats]
    by (simp add: login_eval normalizeFlatId_A1)
  show "loginFlat sample_compare 5000 (Some ''A1'') (Some ''5678'') None five_flats =
     (LoginError ''PASSWORD_REQUIRED'', five_flats)"
    using loginFlat_order [where compare = sample_compare and now = 5000
        and m_flat_id = "Some ''A1''" and m_pin = "Some ''5678''" and m_password = None
        and d = five_flats]
    by (simp add: login_eval normalizeFlatId_A1)
  show "loginFlat sample_compare 5000 (Some ''A1'') (Some ''5678'') (Some ''letmein'') five_flats =
     (LoginError ''INVALID_CREDENTIALS'', five_flats)"
    using loginFlat_order [where compare = sample_compare and now = 5000
        and m_flat_id = "Some ''A1''" and m_pin = "Some ''5678''" and m_password = "Some ''letmein''"
        and d = five_flats]
    by (simp add: login_eval normalizeFlatId_A1)
qed


subsection \<open>setupPinWithCode\<close>

lemma trim_1234: "trim ''1234'' = ''1234''"
  by code_simp

lemmas setup_eval =
  setupPinWithCode_def select_flat_def recent_codes_def find_valid_def order_desc_def
  sample_flat_def sample_code_def sample_hash_def sample_compare_def truthy_def
  is_pin4_def is_digit_def js_String_def trim_1234 normalizeFlatId_a1_lower Let_def

lemma setup_one_code:
  "setupPinWithCode sample_compare sample_hash 1000 (Some ''a1'') (Some ''1234'') (Some ''5678'')
     None one_code = (SetupOk, one_code_used)"
  by (simp add: setup_eval one_code_def one_code_used_def)

lemma setup_two_codes:
  "setupPinWithCode sample_compare sample_hash 1000 (Some ''a1'') (Some ''1234'') (Some ''5678'')
     None two_codes = (SetupOk, two_codes_used)"
  by (simp add: setup_eval two_codes_def two_codes_used_def)

text \<open>
  Claim C4 says that a second \<open>setupPinWithCode\<close> with a code that has been used returns
  \<^verbatim>\<open>INVALID_CODE\<close>. A used code is not looked at again, so when it was the flat's only
  code the second call finds no code to compare with and returns \<^verbatim>\<open>NO_VALID_CODE\<close>.
\<close>

theorem setup_same_code_again_no_valid_code:
  "setupPinWithCode sample_compare sample_hash 1000 (Some ''a1'') (Some ''1234'') (Some ''5678'')
     None one_code = (SetupOk, one_code_used) \<and>
   setupPinWithCode sample_compare sample_hash 2000 (Some ''a1'') (Some ''1234'') (Some ''5678'')
     None one_code_used = (SetupError ''NO_VALID_CODE'', one_code_used)"
  by (simp add: setup_eval one_code_def one_code_used_def)

lemma find_map_preserved:
  assumes "\<And>x. P (g x) = P x"
  shows "find P (map g xs) = map_option g (find P xs)"
  using assms by (induction xs) simp_all

lemma find_SomeD: "find P xs = Some x \<Longrightarrow> P x \<and> x \<in> set xs"
  by (induction xs) (auto split: if_splits)

lemma recent_codes_subset: "set (recent_codes fid d) \<subseteq> set (setup_codes d)"
proof -
  have "set (recent_codes fid d) \<subseteq>
      set (order_desc code_created_at (filter (\<lambda>r. code_flat_id r = fid) (setup_codes d)))"
    unfolding recent_codes_def by (rule set_take_subset)
  also have "\<dots> \<subseteq> set (setup_codes d)"
    by (simp add: order_desc_def)
  finally show ?thesis .
qed

lemma find_valid_SomeD:
  "find_valid now (recent_codes fid d) = Some v \<Longrightarrow>
     used_at v = None \<and> now < expires_at v \<and> v \<in> set (setup_codes d)"
  unfolding find_valid_def using recent_codes_subset [of fid d] by (auto dest: find_SomeD)

text \<open>What a successful call has checked and written.\<close>

lemma setupPinWithCode_OkD:
  assumes "setupPinWithCode compare hash now m_flat_id m_code m_pin m_password d = (SetupOk, d1)"
  shows "normalizeFlatId m_flat_id \<noteq> '''' \<and> truthy m_code \<noteq> None \<and> truthy m_pin \<noteq> None \<and>
         is_pin4 (js_String m_pin) \<and>
         (\<exists>fl valid.
            select_flat (normalizeFlatId m_flat_id) d = Some fl \<and> flat_status fl = ''ACTIVE'' \<and>
            find_valid now (recent_codes (normalizeFlatId m_flat_id) d) = Some valid \<and>
            compare (trim (js_String m_code)) (code_hash valid) \<and>
            d1 = d\<lparr>flats := map (\<lambda>f. if flat_flat_id f = normalizeFlatId m_flat_id
                        then f\<lparr>pin_hash := Some (hash (js_String m_pin)),
                               password_hash :=
                                 (case truthy m_password of None \<Rightarrow> None
                                  | Some p \<Rightarrow> Some (hash p)),
                               flat_updated_at := now\<rparr>
                        else f) (flats d),
                   setup_codes := map (\<lambda>r. if code_id r = code_id valid
                        then r\<lparr>used_at := Some now\<rparr> else r) (setup_codes d)\<rparr>)"
  using assms
  by (auto simp: setupPinWithCode_def Let_def split: if_splits option.splits)

text \<open>
  Claim C4 as amended. Setup codes are single-use: a successful \<open>setupPinWithCode\<close> marks
  the code row it chose as used, and a second call for the same flat with the same code
  never chooses that row again. The second call returns \<^verbatim>\<open>NO_VALID_CODE\<close> when the flat
  has no other unused, unexpired code among its five most recent; when it has one, that
  one is another row of the table, and the call returns \<^verbatim>\<open>INVALID_CODE\<close> if the
  supplied code does not match its hash.
\<close>

theorem setup_code_single_use:
  assumes "setupPinWithCode compare hash_first now_first m_flat_id m_code m_pin m_password d = (SetupOk, d1)"
  shows "\<exists>consumed.
           find_valid now_first (recent_codes (normalizeFlatId m_flat_id) d) = Some consumed \<and>
           (\<forall>r \<in> set (setup_codes d1). code_id r = code_id consumed \<longrightarrow> used_at r = Some now_first) \<and>
           (case find_valid now_again (recent_codes (normalizeFlatId m_flat_id) d1) of
              None \<Rightarrow>
                setupPinWithCode compare hash_again now_again m_flat_id m_code m_pin m_password d1 =
                  (SetupError ''NO_VALID_CODE'', d1)
            | Some other \<Rightarrow>
                code_id other \<noteq> code_id consumed \<and> other \<in> set (setup_codes d) \<and>
                (\<not> compare (trim (js_String m_code)) (code_hash other) \<longrightarrow>
                   setupPinWithCode compare hash_again now_again m_flat_id m_code m_pin m_password d1 =
                     (SetupError ''INVALID_CODE'', d1)))"
proof -
  define fid where "fid = normalizeFlatId m_flat_id"
  from setupPinWithCode_OkD [OF assms] obtain fl valid where
    fields: "fid \<noteq> ''''" "truthy m_code \<noteq> None" "truthy m_pin \<noteq> None" "is_pin4 (js_String m_pin)"
    and fl: "select_flat fid d = Some fl" "flat_status fl = ''ACTIVE''"
    and valid: "find_valid now_first (recent_codes fid d) = Some valid"
    and d1: "d1 = d\<lparr>flats := map (\<lambda>f. if flat_flat_id f = fid
                        then f\<lparr>pin_hash := Some (hash_first (js_String m_pin)),
                               password_hash :=
                                 (case truthy m_password of None \<Rightarrow> None
                                  | Some p \<Rightarrow> Some (hash_first p)),
                               flat_updated_at := now_first\<rparr>
                        else f) (flats d),
                   setup_codes := map (\<lambda>r. if code_id r = code_id valid
                        then r\<lparr>used_at := Some now_first\<rparr> else r) (setup_codes d)\<rparr>"
    unfolding fid_def by blast
  define F :: "flat \<Rightarrow> flat" where "F = (\<lambda>f. if flat_flat_id f = fid
                        then f\<lparr>pin_hash := Some (hash_first (js_String m_pin)),
                               password_hash :=
                                 (case truthy m_password of None \<Rightarrow> None
                                  | Some p \<Rightarrow> Some (hash_first p)),
                               flat_updated_at := now_first\<rparr>
                        else f)"
  define G :: "setup_code \<Rightarrow> setup_code" where "G = (\<lambda>r. if code_id r = code_id valid
                        then r\<lparr>used_at := Some now_first\<rparr> else r)"
  have flats_after: "flats d1 = map F (flats d)" and codes_after: "setup_codes d1 = map G (setup_codes d)"
    by (simp_all add: d1 F_def G_def)
  have "select_flat fid d1 = map_option F (select_flat fid d)"
    unfolding select_flat_def flats_after
    by (rule find_map_preserved) (simp add: F_def)
  with fl have fl1: "select_flat fid d1 = Some (F fl)" by simp
  have st1: "flat_status (F fl) = ''ACTIVE''" using fl(2) by (simp add: F_def)
  have used: "\<forall>r \<in> set (setup_codes d1). code_id r = code_id valid \<longrightarrow> used_at r = Some now_first"
    unfolding codes_after by (auto simp: G_def)
  have second: "(case find_valid now_again (recent_codes fid d1) of
              None \<Rightarrow>
                setupPinWithCode compare hash_again now_again m_flat_id m_code m_pin m_password d1 =
                  (SetupError ''NO_VALID_CODE'', d1)
            | Some other \<Rightarrow>
                code_id other \<noteq> code_id valid \<and> other \<in> set (setup_codes d) \<and>
                (\<not> compare (trim (js_String m_code)) (code_hash other) \<longrightarrow>
                   setupPinWithCode compare hash_again now_again m_flat_id m_code m_pin m_password d1 =
                     (SetupError ''INVALID_CODE'', d1)))"
  proof (cases "find_valid now_again (recent_codes fid d1)")
    case None
    with fields fl1 st1 show ?thesis
      by (simp add: setupPinWithCode_def fid_def [symmetric] Let_def)
  next
    case (Some other)
    from find_valid_SomeD [OF Some] have o: "used_at other = None" "other \<in> set (setup_codes d1)"
      by simp_all
    from o(2) obtain r where r: "r \<in> set (setup_codes d)" "other = G r"
      unfolding codes_after by auto
    have ne: "code_id r \<noteq> code_id valid"
    proof
      assume "code_id r = code_id valid"
      with r(2) have "used_at other = Some now_first" by (simp add: G_def)
      with o(1) show False by simp
    qed
    with r(2) have eq: "other = r" by (simp add: G_def)
    from Some fields fl1 st1
    have "\<not> compare (trim (js_String m_code)) (code_hash other) \<longrightarrow>
        setupPinWithCode compare hash_again now_again m_flat_id m_code m_pin m_password d1 =
          (SetupError ''INVALID_CODE'', d1)"
      by (auto simp: setupPinWithCode_def fid_def [symmetric] Let_def)
    with Some ne eq r(1) show ?thesis by simp
  qed
  from valid used second show ?thesis
    unfolding fid_def by blast
qed

theorem setup_code_single_use_witness:
  "setupPinWithCode sample_compare sample_hash 1000 (Some ''a1'') (Some ''1234'') (Some ''5678'')
     None one_code = (SetupOk, one_code_used) \<and>
   setupPinWithCode sample_compare sample_hash 2000 (Some ''a1'') (Some ''1234'') (Some ''5678'')
     None one_code_used = (SetupError ''NO_VALID_CODE'', one_code_used) \<and>
   setupPinWithCode sample_compare sample_hash 1000 (Some ''a1'') (Some ''1234'') (Some ''5678'')
     None two_codes = (SetupOk, two_codes_used) \<and>
   setupPinWithCode sample_compare sample_hash 2000 (Some ''a1'') (Some ''1234'') (Some ''5678'')
     None two_codes_used = (SetupError ''INVALID_CODE'', two_codes_used)"
proof -
  have v1: "find_valid 2000 (recent_codes (normalizeFlatId (Some ''a1'')) one_code_used) = None"
    by (simp add: find_valid_def recent_codes_def order_desc_def one_code_used_def
        sample_code_def normalizeFlatId_a1_lower)
  have v2: "find_valid 2000 (recent_codes (normalizeFlatId (Some ''a1'')) two_codes_used) =
      Some (sample_code 1 ''4321'' 400)"
    by (simp add: find_valid_def recent_codes_def order_desc_def two_codes_used_def
        sample_code_def normalizeFlatId_a1_lower)
  have c: "\<not> sample_compare (trim (js_String (Some ''1234''))) (code_hash (sample_code 1 ''4321'' 400))"
    by (simp add: sample_compare_def sample_hash_def sample_code_def js_String_def trim_1234)
  from setup_code_single_use [OF setup_one_code, where now_again = 2000 and hash_again = sample_hash] v1
  have a: "setupPinWithCode sample_compare sample_hash 2000 (Some ''a1'') (Some ''1234'')
     (Some ''5678'') None one_code_used = (SetupError ''NO_VALID_CODE'', one_code_used)"
    by auto
  from setup_code_single_use [OF setup_two_codes, where now_again = 2000 and hash_again = sample_hash] v2 c
  have b: "setupPinWithCode sample_compare sample_hash 2000 (Some ''a1'') (Some ''1234'')
     (Some ''5678'') None two_codes_used = (SetupError ''INVALID_CODE'', two_codes_used)"
    by auto
  from setup_one_code setup_two_codes a b show ?thesis by simp
qed


end
